theory Spec2Isabelle
  imports Main "HOL-Library.Char_ord" "HOL-Library.List_Lexorder" "HOL-Library.Multiset"
begin

section \<open>Paths and strings\<close>

text \<open>
  Python strings and byte strings are lists of characters. Paths follow the POSIX rules of
  \<^verbatim>\<open>os.path\<close>: the separator is the slash.
\<close>

type_synonym path = string
type_synonym bytes = string

definition basename :: "path \<Rightarrow> string" where
  "basename p = rev (takeWhile (\<lambda>c. c \<noteq> CHR ''/'') (rev p))"

text \<open>
  \<^verbatim>\<open>os.path.splitext(p)[1]\<close>: the text from the last dot of the last path component on,
  unless only dots come before it in that component.
\<close>

definition splitext_ext :: "path \<Rightarrow> string" where
  "splitext_ext p =
     (let r = rev (basename p) in
      if CHR ''.'' \<in> set r then
        (if filter (\<lambda>c. c \<noteq> CHR ''.'') (tl (dropWhile (\<lambda>c. c \<noteq> CHR ''.'') r)) \<noteq> []
         then CHR ''.'' # rev (takeWhile (\<lambda>c. c \<noteq> CHR ''.'') r)
         else [])
      else [])"

definition lower_char :: "char \<Rightarrow> char" where
  "lower_char c =
     (case map_of (zip ''ABCDEFGHIJKLMNOPQRSTUVWXYZ'' ''abcdefghijklmnopqrstuvwxyz'') c of
        Some d \<Rightarrow> d
      | None \<Rightarrow> c)"

definition lower :: "string \<Rightarrow> string" where
  "lower s = map lower_char s"


section \<open>Files on disk, as the tagging library presents them\<close>

text \<open>
  The tagging library is an external collaborator. A file holds, for each key of the easy
  interface, the texts last saved under it (\<open>tags\<close>: what the file was given, which is
  not always what the library reads back), and the embedded pictures where each
  container keeps them: the APIC frames of an \<^verbatim>\<open>.mp3\<close> (stored under the key \<^verbatim>\<open>APIC:\<close>
  followed by the frame's description), the picture blocks of a \<^verbatim>\<open>.flac\<close>, the \<^verbatim>\<open>covr\<close>
  entry of an \<^verbatim>\<open>.m4a\<close>, and the \<^verbatim>\<open>metadata_block_picture\<close> comment of an \<^verbatim>\<open>.ogg\<close> (kept as
  the picture blocks that its base64 text encodes). The container of a file is the one its
  extension names.

  What the easy interface reads under a key is not always the text saved there: an
  \<^verbatim>\<open>.mp3\<close> reads a date only if it is a time stamp and reads a numeric genre as its name,
  an \<^verbatim>\<open>.m4a\<close> keeps a track number as a pair of integers, while the comments of a
  \<^verbatim>\<open>.flac\<close> or \<^verbatim>\<open>.ogg\<close> read as they are. \<open>easy_view\<close> is that reading: from a key and the
  texts saved under it to the values read, or to nothing when the key reads as absent.

  A file that was never tagged has no tag object (\<open>has_tags\<close> is false and \<open>tags\<close> is
  empty); an assignment through the easy interface creates it.

  What the environment may do to a call is part of the file as well: \<open>rejects\<close> is the
  validation of the easy interface (the message of the exception an assignment raises, if
  any), and \<open>easy_save_error\<close> and \<open>raw_save_error\<close> are the failures of persisting through
  the easy and the raw interface (disk, permissions).
\<close>

record picture =
  ptype :: nat
  pmime :: "string option"
  pdesc :: string
  pdata :: bytes

record mp4cover =
  cover_data :: bytes
  imageformat :: nat

record audio_file =
  has_tags :: bool
  tags :: "string \<rightharpoonup> string list"
  easy_view :: "string \<Rightarrow> string list \<Rightarrow> string list option"
  apic :: "picture list"
  pictures :: "picture list"
  covr :: "mp4cover list option"
  mbp :: "picture list option"
  rejects :: "string \<Rightarrow> string \<Rightarrow> string option"
  easy_save_error :: "string option"
  raw_save_error :: "string option"

text \<open>
  \<^verbatim>\<open>mutagen.File(path)\<close> raises on a file it cannot read, returns \<^verbatim>\<open>None\<close> on a file whose
  container it does not recognise, and the loaded file otherwise.
\<close>

datatype entry = Unreadable string | Unrecognised | Audio audio_file

type_synonym disk = "path \<Rightarrow> entry"

datatype exn =
    TypeError string
  | KeyError string
  | IndexError string
  | AttributeError string
  | RuntimeError string
  | LibraryError string

definition quoted :: "string \<Rightarrow> string" where
  "quoted s = CHR 0x27 # s @ [CHR 0x27]"

text \<open>\<^verbatim>\<open>str(e)\<close>: the message; a \<^verbatim>\<open>KeyError\<close> prints its key quoted.\<close>

fun str_exn :: "exn \<Rightarrow> string" where
  "str_exn (TypeError m) = m"
| "str_exn (KeyError k) = quoted k"
| "str_exn (IndexError m) = m"
| "str_exn (AttributeError m) = m"
| "str_exn (RuntimeError m) = m"
| "str_exn (LibraryError m) = m"

section \<open>The tag table\<close>

definition TAG_MAP_items :: "(string \<times> string) list" where
  "TAG_MAP_items =
     [(''Title'', ''title''),
      (''Artist'', ''artist''),
      (''Album'', ''album''),
      (''Album Artist'', ''albumartist''),
      (''Year'', ''date''),
      (''Genre'', ''genre''),
      (''Track Number'', ''tracknumber''),
      (''Composer'', ''composer''),
      (''Producer'', ''producer''),
      (''Copyright'', ''copyright''),
      (''Comment'', ''comment''),
      (''BPM'', ''bpm''),
      (''ISRC'', ''isrc''),
      (''Catalog Number'', ''catalognumber'')]"

definition TAG_MAP :: "string \<rightharpoonup> string" where
  "TAG_MAP = map_of TAG_MAP_items"


section \<open>Writing the embedded picture\<close>

text \<open>
  \<^verbatim>\<open>FileProcessor._save_album_art_to_file\<close>. The file is opened again through the raw
  interface, outside the \<^verbatim>\<open>try\<close>; a file the library does not recognise is left alone
  without an error. Empty bytes are the instruction to delete: each branch first removes
  every picture the file holds and then, unless deleting, adds the one cover.
\<close>

definition cover_picture :: "string option \<Rightarrow> bytes \<Rightarrow> picture" where
  "cover_picture art_mime art_data =
     \<lparr>ptype = 3, pmime = art_mime, pdesc = ''Cover'', pdata = art_data\<rparr>"

definition set_album_art :: "string \<Rightarrow> bytes \<Rightarrow> string option \<Rightarrow> audio_file \<Rightarrow> audio_file" where
  "set_album_art ext art_data art_mime audio =
     (let delete_art = (art_data = []) in
      if ext = ''.mp3'' then
        audio\<lparr>apic := (if delete_art then [] else [cover_picture art_mime art_data])\<rparr>
      else if ext = ''.flac'' then
        audio\<lparr>pictures := (if delete_art then [] else [cover_picture art_mime art_data])\<rparr>
      else if ext = ''.m4a'' then
        (let image_format = (if art_mime = Some ''image/png'' then 14 else 13) in
         audio\<lparr>covr := Some (if delete_art then []
                              else [\<lparr>cover_data = art_data, imageformat = image_format\<rparr>])\<rparr>)
      else if ext = ''.ogg'' then
        audio\<lparr>mbp := (if delete_art then None else Some [cover_picture art_mime art_data])\<rparr>
      else audio)"

definition no_attribute :: "string \<Rightarrow> string" where
  "no_attribute name = quoted ''NoneType'' @ '' object has no attribute '' @ quoted name"

text \<open>
  What the statements of a branch raise before the save: on an \<^verbatim>\<open>.mp3\<close> or \<^verbatim>\<open>.m4a\<close>
  without a tag object, \<^verbatim>\<open>audio.tags\<close> is \<^verbatim>\<open>None\<close>; on an \<^verbatim>\<open>.ogg\<close> the picture is
  serialised in the branch, which needs its MIME type.
\<close>

definition branch_error :: "string \<Rightarrow> bytes \<Rightarrow> string option \<Rightarrow> audio_file \<Rightarrow> exn option" where
  "branch_error ext art_data art_mime audio =
     (if ext = ''.mp3'' then
        (if has_tags audio then None else Some (AttributeError (no_attribute ''delall'')))
      else if ext = ''.m4a'' then
        (if has_tags audio then None
         else Some (TypeError (quoted ''NoneType'' @ '' object does not support item assignment'')))
      else if ext = ''.ogg'' then
        (if art_data \<noteq> [] \<and> art_mime = None
         then Some (AttributeError (no_attribute ''encode'')) else None)
      else None)"

text \<open>
  What the final save raises: the failure of persisting, or, on a \<^verbatim>\<open>.flac\<close>, the
  serialisation of a picture block without a MIME type.
\<close>

definition save_error :: "string \<Rightarrow> bytes \<Rightarrow> string option \<Rightarrow> audio_file \<Rightarrow> exn option" where
  "save_error ext art_data art_mime audio =
     (case raw_save_error audio of
        Some msg \<Rightarrow> Some (LibraryError msg)
      | None \<Rightarrow>
          if ext = ''.flac'' \<and> art_data \<noteq> [] \<and> art_mime = None
          then Some (AttributeError (no_attribute ''encode'')) else None)"

text \<open>Whatever the branch or the save raises is raised again as a \<^verbatim>\<open>RuntimeError\<close>.\<close>

definition save_album_art_to_file ::
  "disk \<Rightarrow> path \<Rightarrow> bytes \<Rightarrow> string option \<Rightarrow> (exn + unit) \<times> disk" where
  "save_album_art_to_file d file_path art_data art_mime =
     (case d file_path of
        Unreadable msg \<Rightarrow> (Inl (LibraryError msg), d)
      | Unrecognised \<Rightarrow> (Inr (), d)
      | Audio audio \<Rightarrow>
          (let ext = lower (splitext_ext file_path) in
           case branch_error ext art_data art_mime audio of
             Some e \<Rightarrow> (Inl (RuntimeError (''Failed to save album art: '' @ str_exn e)), d)
           | None \<Rightarrow>
               (let audio' = set_album_art ext art_data art_mime audio in
                case save_error ext art_data art_mime audio' of
                  Some e \<Rightarrow> (Inl (RuntimeError (''Failed to save album art: '' @ str_exn e)), d)
                | None \<Rightarrow> (Inr (), d(file_path := Audio audio')))))"

section \<open>The batch save\<close>

text \<open>
  The loop over the fields to save of \<^verbatim>\<open>FileProcessor.process_and_save\<close>, on the file held
  in memory. The dictionary \<^verbatim>\<open>tags_to_save\<close> is the list of its items in their order.
  An assignment \<^verbatim>\<open>audio[key] = value\<close> puts the value under the key, unless the easy
  interface rejects it, and creates the tag object if there is none. The test
  \<^verbatim>\<open>key in audio\<close> reads through the easy interface.
\<close>

definition easy_get :: "audio_file \<Rightarrow> string \<Rightarrow> string list option" where
  "easy_get audio key =
     (case tags audio key of
        None \<Rightarrow> None
      | Some vs \<Rightarrow> easy_view audio key vs)"

definition set_tag :: "string \<Rightarrow> string \<Rightarrow> audio_file \<Rightarrow> exn + audio_file" where
  "set_tag key v audio =
     (case rejects audio key v of
        Some msg \<Rightarrow> Inl (LibraryError msg)
      | None \<Rightarrow> Inr (audio\<lparr>has_tags := True, tags := (tags audio)(key \<mapsto> [v])\<rparr>))"

definition del_tag :: "string \<Rightarrow> audio_file \<Rightarrow> audio_file" where
  "del_tag key audio = audio\<lparr>tags := (tags audio)(key := None)\<rparr>"

fun apply_tags :: "(string \<times> string) list \<Rightarrow> audio_file \<Rightarrow> exn + audio_file" where
  "apply_tags [] audio = Inr audio"
| "apply_tags ((tag_display, v) # rest) audio =
     (case TAG_MAP tag_display of
        None \<Rightarrow> Inl (KeyError tag_display)
      | Some key \<Rightarrow>
          if v \<noteq> [] then
            (case set_tag key v audio of
               Inl e \<Rightarrow> Inl e
             | Inr audio' \<Rightarrow> apply_tags rest audio')
          else if easy_get audio key \<noteq> None then apply_tags rest (del_tag key audio)
          else apply_tags rest audio)"

text \<open>The body of the \<^verbatim>\<open>try\<close> for one file: the outcome and the disk it leaves.\<close>

definition save_file ::
  "disk \<Rightarrow> path \<Rightarrow> (string \<times> string) list \<Rightarrow> bytes option \<Rightarrow> string option
     \<Rightarrow> (exn + unit) \<times> disk" where
  "save_file d path tags_to_save art_data art_mime =
     (case d path of
        Unreadable msg \<Rightarrow> (Inl (LibraryError msg), d)
      | Unrecognised \<Rightarrow> (Inl (TypeError ''File could not be opened by mutagen.''), d)
      | Audio audio \<Rightarrow>
          (case apply_tags tags_to_save audio of
             Inl e \<Rightarrow> (Inl e, d)
           | Inr audio' \<Rightarrow>
               (case easy_save_error audio' of
                  Some msg \<Rightarrow> (Inl (LibraryError msg), d)
                | None \<Rightarrow>
                    (let d' = d(path := Audio audio') in
                     case art_data of
                       None \<Rightarrow> (Inr (), d')
                     | Some data \<Rightarrow> save_album_art_to_file d' path data art_mime))))"

record report =
  saved_count :: nat
  total_files :: nat
  errors :: "string list"

text \<open>
  The state of a run: the disk, the counter, the error list and the progress signals
  emitted so far.
\<close>

record run =
  disk_now :: disk
  saved :: nat
  errs :: "string list"
  emitted :: "(nat \<times> nat) list"

text \<open>
  The \<^verbatim>\<open>for\<close> loop. \<open>stop i\<close> is the value of \<^verbatim>\<open>stop_requested\<close> that the loop reads before
  the file of index \<open>i\<close>: the flag is cleared on entry and set by the owner of the worker.
\<close>

fun save_loop ::
  "(nat \<Rightarrow> bool) \<Rightarrow> (string \<times> string) list \<Rightarrow> bytes option \<Rightarrow> string option \<Rightarrow> nat
     \<Rightarrow> nat \<Rightarrow> path list \<Rightarrow> run \<Rightarrow> run" where
  "save_loop stop tags_to_save art_data art_mime n i [] r = r"
| "save_loop stop tags_to_save art_data art_mime n i (path # rest) r =
     (if stop i then r
      else
        (let (res, d') = save_file (disk_now r) path tags_to_save art_data art_mime;
             r' = (case res of
                     Inr _ \<Rightarrow> r\<lparr>disk_now := d', saved := saved r + 1\<rparr>
                   | Inl e \<Rightarrow>
                       r\<lparr>disk_now := d',
                         errs := errs r @ [''Error saving '' @ basename path @ '': '' @ str_exn e]\<rparr>)
         in save_loop stop tags_to_save art_data art_mime n (i + 1) rest
              (r'\<lparr>emitted := emitted r' @ [(i + 1, n)]\<rparr>)))"

definition process_and_save ::
  "(nat \<Rightarrow> bool) \<Rightarrow> disk \<Rightarrow> path list \<Rightarrow> (string \<times> string) list \<Rightarrow> bytes option
     \<Rightarrow> string option \<Rightarrow> run" where
  "process_and_save stop d file_paths tags_to_save art_data art_mime =
     save_loop stop tags_to_save art_data art_mime (length file_paths) 0 file_paths
       \<lparr>disk_now = d, saved = 0, errs = [], emitted = [(0, length file_paths)]\<rparr>"

text \<open>The dictionary sent with \<^verbatim>\<open>processing_finished\<close>.\<close>

definition finished :: "path list \<Rightarrow> run \<Rightarrow> report" where
  "finished file_paths r =
     \<lparr>saved_count = saved r, total_files = length file_paths, errors = errs r\<rparr>"

section \<open>The editor: collecting the fields to save\<close>

text \<open>
  What \<^verbatim>\<open>Metagify.save_metadata\<close> reads from the window: the selection, and for every
  display name of the tag table its checkbox and the text of its field. The dictionaries
  \<^verbatim>\<open>self.checkboxes\<close> and \<^verbatim>\<open>self.fields\<close> are filled in the order of the tag table.
\<close>

record editor =
  selected_paths :: "path list"
  checked :: "string \<Rightarrow> bool"
  field_text :: "string \<Rightarrow> string"
  current_art_data :: "bytes option"
  current_art_mime :: "string option"
  art_is_dirty :: bool

definition tags_to_save_of :: "editor \<Rightarrow> (string \<times> string) list" where
  "tags_to_save_of ed =
     (let is_batch_mode = (length (selected_paths ed) > 1) in
      if is_batch_mode then
        map (\<lambda>tag_display. (tag_display, field_text ed tag_display))
          (filter (checked ed) (map fst TAG_MAP_items))
      else
        map (\<lambda>tag_display. (tag_display, field_text ed tag_display)) (map fst TAG_MAP_items))"

definition save_metadata :: "(nat \<Rightarrow> bool) \<Rightarrow> editor \<Rightarrow> disk \<Rightarrow> run option" where
  "save_metadata stop ed d =
     (if selected_paths ed = [] then None
      else
        (let art_data = (if art_is_dirty ed then current_art_data ed else None);
             art_mime = (if art_is_dirty ed then current_art_mime ed else None)
         in Some (process_and_save stop d (selected_paths ed) (tags_to_save_of ed)
                    art_data art_mime)))"

section \<open>Reading the embedded picture\<close>

text \<open>
  \<^verbatim>\<open>Metagify.load_album_art\<close> opens the file through the raw interface and looks a picture
  up under the key \<^verbatim>\<open>APIC:\<close>, then under \<^verbatim>\<open>covr\<close>, then in the attribute \<^verbatim>\<open>pictures\<close>.
  Through the raw interface an \<^verbatim>\<open>.mp3\<close> answers with its frames (of which the APIC frames
  are kept here, each under \<^verbatim>\<open>APIC:\<close> and its description), an \<^verbatim>\<open>.m4a\<close> with its \<^verbatim>\<open>covr\<close>
  entry, and a \<^verbatim>\<open>.flac\<close> or \<^verbatim>\<open>.ogg\<close> with its comments, whose names do not distinguish case.
  Only a \<^verbatim>\<open>.flac\<close> has the attribute \<^verbatim>\<open>pictures\<close>.
\<close>

datatype raw_value = Frame picture | Covers "mp4cover list" | Texts "string list"

definition raw_get :: "string \<Rightarrow> audio_file \<Rightarrow> string \<Rightarrow> raw_value option" where
  "raw_get ext audio key =
     (if ext = ''.mp3'' then
        map_option Frame (find (\<lambda>p. ''APIC:'' @ pdesc p = key) (apic audio))
      else if ext = ''.m4a'' then
        (if key = ''covr'' then map_option Covers (covr audio) else None)
      else if ext = ''.flac'' \<or> ext = ''.ogg'' then
        map_option Texts (tags audio (lower key))
      else None)"

text \<open>
  The lookup of the artwork ends with an exception, whose message goes to the status bar
  and is not kept here, or with the value found, if any. A comment is a list of texts: it
  has no attribute \<^verbatim>\<open>data\<close>, and the pixmap refuses a text that is not empty. An empty
  list of covers has no first element.
\<close>

datatype lookup = Raises | Artwork "bytes option"

definition find_artwork :: "string \<Rightarrow> audio_file \<Rightarrow> lookup" where
  "find_artwork ext audio_raw =
     (case raw_get ext audio_raw ''APIC:'' of
        Some v \<Rightarrow>
          (case v of
             Frame p \<Rightarrow> Artwork (Some (pdata p))
           | Covers cs \<Rightarrow> Raises
           | Texts ts \<Rightarrow> Raises)
      | None \<Rightarrow>
          (case raw_get ext audio_raw ''covr'' of
             Some v \<Rightarrow>
               (case v of
                  Frame p \<Rightarrow> Raises
                | Covers cs \<Rightarrow>
                    (case cs of
                       [] \<Rightarrow> Raises
                     | c # _ \<Rightarrow> Artwork (Some (cover_data c)))
                | Texts ts \<Rightarrow>
                    (case ts of
                       [] \<Rightarrow> Raises
                     | t # _ \<Rightarrow> if t = [] then Artwork (Some []) else Raises))
           | None \<Rightarrow>
               if ext = ''.flac'' then
                 (case pictures audio_raw of
                    [] \<Rightarrow> Artwork None
                  | p # _ \<Rightarrow> Artwork (Some (pdata p)))
               else Raises))"

text \<open>What the art label shows afterwards.\<close>

datatype art_view = ArtShown bytes | NoAlbumArt | ErrorLoadingArt

definition load_album_art :: "disk \<Rightarrow> path \<Rightarrow> art_view" where
  "load_album_art d path =
     (case d path of
        Unreadable msg \<Rightarrow> ErrorLoadingArt
      | Unrecognised \<Rightarrow> ErrorLoadingArt
      | Audio audio_raw \<Rightarrow>
          (case find_artwork (lower (splitext_ext path)) audio_raw of
             Raises \<Rightarrow> ErrorLoadingArt
           | Artwork artwork \<Rightarrow>
               (case artwork of
                  None \<Rightarrow> NoAlbumArt
                | Some b \<Rightarrow> if b \<noteq> [] then ArtShown b else NoAlbumArt)))"

section \<open>Applying a release\<close>

text \<open>
  The release as the remote database's client returns it: nested dictionaries, in which a
  key may be missing. The track count is a number, the track number is text.
\<close>

record recording =
  rec_title :: "string option"

record track =
  t_number :: "string option"
  t_recording :: "recording option"
  t_artist_credit_phrase :: "string option"

record medium =
  track_list :: "track list option"
  track_count :: "nat option"

record release =
  medium_list :: "medium list option"
  r_artist_credit_phrase :: "string option"
  r_title :: "string option"
  r_date :: "string option"

text \<open>\<^verbatim>\<open>s.split(sep)\<close> with a separator: the pieces between its occurrences, at least one.\<close>

fun split_on :: "char \<Rightarrow> string \<Rightarrow> string list" where
  "split_on sep [] = [[]]"
| "split_on sep (c # cs) =
     (if c = sep then [] # split_on sep cs
      else (case split_on sep cs of
              [] \<Rightarrow> [[c]]
            | w # ws \<Rightarrow> (c # w) # ws))"

definition upper_char :: "char \<Rightarrow> char" where
  "upper_char c =
     (case map_of (zip ''abcdefghijklmnopqrstuvwxyz'' ''ABCDEFGHIJKLMNOPQRSTUVWXYZ'') c of
        Some d \<Rightarrow> d
      | None \<Rightarrow> c)"

definition upper :: "string \<Rightarrow> string" where
  "upper s = map upper_char s"

text \<open>The decimal text of a number, as an f-string prints it.\<close>

fun str_of_nat :: "nat \<Rightarrow> string" where
  "str_of_nat n =
     (if n < 10 then [''0123456789'' ! n]
      else str_of_nat (n div 10) @ [''0123456789'' ! (n mod 10)])"

declare str_of_nat.simps [simp del]

definition release_tracks :: "release \<Rightarrow> exn + (medium \<times> track list)" where
  "release_tracks release_data =
     (case medium_list release_data of
        None \<Rightarrow> Inl (KeyError ''medium-list'')
      | Some ms \<Rightarrow>
          (case ms of
             [] \<Rightarrow> Inl (IndexError ''list index out of range'')
           | m # _ \<Rightarrow>
               (case track_list m of
                  None \<Rightarrow> Inl (KeyError ''track-list'')
                | Some tracks \<Rightarrow> Inr (m, tracks))))"

text \<open>
  The date of a release as the remote database serves it: a year of four digits, which a
  month and a day of two digits may follow, each after a hyphen; or no date.
\<close>

definition is_digit :: "char \<Rightarrow> bool" where
  "is_digit c = (c \<in> set ''0123456789'')"

definition digits :: "nat \<Rightarrow> string \<Rightarrow> bool" where
  "digits n s = (length s = n \<and> list_all is_digit s)"

definition musicbrainz_date :: "string \<Rightarrow> bool" where
  "musicbrainz_date s =
     (case split_on CHR ''-'' s of
        [y] \<Rightarrow> digits 4 y
      | [y, m] \<Rightarrow> digits 4 y \<and> digits 2 m
      | [y, m, dd] \<Rightarrow> digits 4 y \<and> digits 2 m \<and> digits 2 dd
      | _ \<Rightarrow> False)"

definition date_as_served :: "release \<Rightarrow> bool" where
  "date_as_served release_data =
     (case r_date release_data of
        None \<Rightarrow> True
      | Some s \<Rightarrow> musicbrainz_date s)"

definition release_year :: "release \<Rightarrow> string" where
  "release_year release_data =
     (case split_on CHR ''-'' (case r_date release_data of None \<Rightarrow> [] | Some s \<Rightarrow> s) of
        [] \<Rightarrow> []
      | w # _ \<Rightarrow> w)"

definition total_tracks_of :: "medium \<Rightarrow> track list \<Rightarrow> nat" where
  "total_tracks_of m tracks =
     (case track_count m of
        Some c \<Rightarrow> c
      | None \<Rightarrow> length tracks)"

text \<open>
  The cover art is scaled once, before the loop. The scaling and encoding belong to the
  window toolkit: \<open>scale\<close> takes the bytes and the name of the format.
\<close>

definition resize_art ::
  "(bytes \<Rightarrow> string \<Rightarrow> bytes) \<Rightarrow> bytes option \<Rightarrow> string option \<Rightarrow> exn + bytes option" where
  "resize_art scale art_data art_mime =
     (case art_data of
        None \<Rightarrow> Inr None
      | Some data \<Rightarrow>
          if data = [] then Inr None
          else
            (case art_mime of
               None \<Rightarrow>
                 Inl (AttributeError
                        (quoted ''NoneType'' @ '' object has no attribute '' @ quoted ''split''))
             | Some mime \<Rightarrow>
                 (case split_on CHR ''/'' mime of
                    _ # fmt # _ \<Rightarrow> Inr (Some (scale data (upper fmt)))
                  | _ \<Rightarrow> Inl (IndexError ''list index out of range''))))"

text \<open>The tags of one track, assigned in the order of the source.\<close>

definition bind_exn :: "exn + 'a \<Rightarrow> ('a \<Rightarrow> exn + 'b) \<Rightarrow> exn + 'b" where
  "bind_exn x f = (case x of Inl e \<Rightarrow> Inl e | Inr a \<Rightarrow> f a)"

definition track_at :: "track list \<Rightarrow> nat \<Rightarrow> exn + track" where
  "track_at tracks i =
     (if i < length tracks then Inr (tracks ! i)
      else Inl (IndexError ''list index out of range''))"

definition track_number_of :: "track \<Rightarrow> exn + string" where
  "track_number_of track_info =
     (case t_number track_info of
        None \<Rightarrow> Inl (KeyError ''number'')
      | Some track_num \<Rightarrow> Inr track_num)"

definition track_title_of :: "track \<Rightarrow> exn + string" where
  "track_title_of track_info =
     (case t_recording track_info of
        None \<Rightarrow> Inl (KeyError ''recording'')
      | Some r \<Rightarrow>
          (case rec_title r of
             None \<Rightarrow> Inl (KeyError ''title'')
           | Some t \<Rightarrow> Inr t))"

definition apply_track ::
  "track list \<Rightarrow> nat \<Rightarrow> string \<Rightarrow> string \<Rightarrow> string \<Rightarrow> nat \<Rightarrow> audio_file \<Rightarrow> exn + audio_file" where
  "apply_track tracks i album_artist album_title date total_tracks audio =
     bind_exn (track_at tracks i) (\<lambda>track_info.
     bind_exn (track_number_of track_info) (\<lambda>track_num.
     bind_exn (track_title_of track_info) (\<lambda>title.
     bind_exn (set_tag ''title'' title audio) (\<lambda>a1.
     bind_exn (set_tag ''artist''
                 (case t_artist_credit_phrase track_info of
                    None \<Rightarrow> album_artist
                  | Some phrase \<Rightarrow> phrase) a1) (\<lambda>a2.
     bind_exn (set_tag ''albumartist'' album_artist a2) (\<lambda>a3.
     bind_exn (set_tag ''album'' album_title a3) (\<lambda>a4.
     bind_exn (set_tag ''date'' date a4) (\<lambda>a5.
     set_tag ''tracknumber'' (track_num @ ''/'' @ str_of_nat total_tracks) a5))))))))"

datatype step = Applied | Skipped | Failed exn

definition apply_file ::
  "disk \<Rightarrow> path \<Rightarrow> track list \<Rightarrow> nat \<Rightarrow> string \<Rightarrow> string \<Rightarrow> string \<Rightarrow> nat
     \<Rightarrow> bytes option \<Rightarrow> string option \<Rightarrow> step \<times> disk" where
  "apply_file d path tracks i album_artist album_title date total_tracks resized_art_data art_mime =
     (case d path of
        Unreadable msg \<Rightarrow> (Failed (LibraryError msg), d)
      | Unrecognised \<Rightarrow> (Skipped, d)
      | Audio audio \<Rightarrow>
          (case apply_track tracks i album_artist album_title date total_tracks audio of
             Inl e \<Rightarrow> (Failed e, d)
           | Inr audio' \<Rightarrow>
               (case easy_save_error audio' of
                  Some msg \<Rightarrow> (Failed (LibraryError msg), d)
                | None \<Rightarrow>
                    (let d' = d(path := Audio audio') in
                     case resized_art_data of
                       None \<Rightarrow> (Applied, d')
                     | Some data \<Rightarrow>
                         if data = [] then (Applied, d')
                         else
                           (case save_album_art_to_file d' path data art_mime of
                              (Inl e, d'') \<Rightarrow> (Failed e, d'')
                            | (Inr _, d'') \<Rightarrow> (Applied, d''))))))"

text \<open>
  The loop of \<^verbatim>\<open>FileProcessor.process_and_save_musicbrainz\<close>. A file the library does not
  recognise is passed over by \<^verbatim>\<open>continue\<close>, which also skips its progress signal; the index
  still advances.
\<close>

fun apply_loop ::
  "(nat \<Rightarrow> bool) \<Rightarrow> track list \<Rightarrow> string \<Rightarrow> string \<Rightarrow> string \<Rightarrow> nat \<Rightarrow> bytes option
     \<Rightarrow> string option \<Rightarrow> nat \<Rightarrow> nat \<Rightarrow> path list \<Rightarrow> run \<Rightarrow> run" where
  "apply_loop stop tracks album_artist album_title date total_tracks art art_mime n i [] r = r"
| "apply_loop stop tracks album_artist album_title date total_tracks art art_mime n i (path # rest) r =
     (if stop i then r
      else
        (let (res, d') = apply_file (disk_now r) path tracks i album_artist album_title date
                           total_tracks art art_mime;
             r' = (case res of
                     Skipped \<Rightarrow> r\<lparr>disk_now := d'\<rparr>
                   | Applied \<Rightarrow>
                       r\<lparr>disk_now := d', saved := saved r + 1,
                         emitted := emitted r @ [(i + 1, n)]\<rparr>
                   | Failed e \<Rightarrow>
                       r\<lparr>disk_now := d',
                         errs := errs r @
                           [''Error applying data to '' @ basename path @ '': '' @ str_exn e],
                         emitted := emitted r @ [(i + 1, n)]\<rparr>)
         in apply_loop stop tracks album_artist album_title date total_tracks art art_mime n
              (i + 1) rest r'))"

text \<open>
  The values read from the release before the loop, in the order of the source; a missing
  key ends the whole operation.
\<close>

record release_values =
  v_tracks :: "track list"
  v_album_artist :: string
  v_album_title :: string
  v_date :: string
  v_total_tracks :: nat
  v_art :: "bytes option"

definition read_release ::
  "(bytes \<Rightarrow> string \<Rightarrow> bytes) \<Rightarrow> release \<Rightarrow> bytes option \<Rightarrow> string option
     \<Rightarrow> exn + release_values" where
  "read_release scale release_data art_data art_mime =
     bind_exn (release_tracks release_data) (\<lambda>(m, tracks).
     (case r_artist_credit_phrase release_data of
        None \<Rightarrow> Inl (KeyError ''artist-credit-phrase'')
      | Some album_artist \<Rightarrow>
          (case r_title release_data of
             None \<Rightarrow> Inl (KeyError ''title'')
           | Some album_title \<Rightarrow>
               bind_exn (resize_art scale art_data art_mime) (\<lambda>resized_art_data.
                 Inr \<lparr>v_tracks = tracks, v_album_artist = album_artist,
                      v_album_title = album_title, v_date = release_year release_data,
                      v_total_tracks = total_tracks_of m tracks,
                      v_art = resized_art_data\<rparr>))))"

text \<open>The run, and the message of the signal \<^verbatim>\<open>processing_error\<close> if it was sent.\<close>

definition process_and_save_musicbrainz ::
  "(nat \<Rightarrow> bool) \<Rightarrow> (bytes \<Rightarrow> string \<Rightarrow> bytes) \<Rightarrow> disk \<Rightarrow> path list \<Rightarrow> release
     \<Rightarrow> bytes option \<Rightarrow> string option \<Rightarrow> run \<times> string option" where
  "process_and_save_musicbrainz stop scale d file_paths release_data art_data art_mime =
     (let r0 = \<lparr>disk_now = d, saved = 0, errs = [], emitted = [(0, length file_paths)]\<rparr> in
      case read_release scale release_data art_data art_mime of
        Inl e \<Rightarrow>
          (r0\<lparr>errs := [''MusicBrainz data application failed: '' @ str_exn e]\<rparr>,
           Some (''MusicBrainz application failed: '' @ str_exn e))
      | Inr v \<Rightarrow>
          (apply_loop stop (v_tracks v) (v_album_artist v) (v_album_title v) (v_date v)
             (v_total_tracks v) (v_art v) art_mime (length file_paths) 0 file_paths r0,
           None))"

text \<open>
  \<^verbatim>\<open>Metagify.apply_musicbrainz_data\<close>: the check of the track count, the sort by base name,
  and the call of the worker. It ends with an uncaught exception, with the warning of a
  track mismatch (the numbers of files selected and of tracks of the release), or with the
  worker's run.
\<close>

datatype outcome =
    Uncaught exn
  | TrackMismatch nat nat
  | Worked run "string option"

definition apply_musicbrainz_data ::
  "(nat \<Rightarrow> bool) \<Rightarrow> (bytes \<Rightarrow> string \<Rightarrow> bytes) \<Rightarrow> editor \<Rightarrow> disk \<Rightarrow> release
     \<Rightarrow> bytes option \<Rightarrow> string option \<Rightarrow> outcome \<times> disk" where
  "apply_musicbrainz_data stop scale ed d release_data art_data art_mime =
     (case release_tracks release_data of
        Inl e \<Rightarrow> (Uncaught e, d)
      | Inr (m, tracks) \<Rightarrow>
          if length (selected_paths ed) \<noteq> length tracks then
            (TrackMismatch (length (selected_paths ed)) (length tracks), d)
          else
            (let sorted_paths = sort_key basename (selected_paths ed);
                 (r, sig) = process_and_save_musicbrainz stop scale d sorted_paths release_data
                              art_data art_mime
             in (Worked r sig, disk_now r)))"

text \<open>
  The texts saved under a key of a file on disk (\<open>tag_on\<close>), if the file is a readable
  audio file, and what the easy interface reads under the key (\<open>read_tag\<close>).
\<close>

definition tag_on :: "disk \<Rightarrow> path \<Rightarrow> string \<Rightarrow> string list option" where
  "tag_on d p key = (case d p of Audio a \<Rightarrow> tags a key | _ \<Rightarrow> None)"

definition read_tag :: "disk \<Rightarrow> path \<Rightarrow> string \<Rightarrow> string list option" where
  "read_tag d p key = (case d p of Audio a \<Rightarrow> easy_get a key | _ \<Rightarrow> None)"

text \<open>
  What the loop of the worker makes of the file of index \<open>i\<close> when it finds it on the disk
  \<open>d\<close>, if the release can be read.
\<close>

definition file_outcome ::
  "(bytes \<Rightarrow> string \<Rightarrow> bytes) \<Rightarrow> disk \<Rightarrow> release \<Rightarrow> bytes option \<Rightarrow> string option
     \<Rightarrow> path \<Rightarrow> nat \<Rightarrow> step option" where
  "file_outcome scale d release_data art_data art_mime path i =
     (case read_release scale release_data art_data art_mime of
        Inl e \<Rightarrow> None
      | Inr v \<Rightarrow>
          Some (fst (apply_file d path (v_tracks v) i (v_album_artist v) (v_album_title v)
                       (v_date v) (v_total_tracks v) (v_art v) art_mime)))"

definition is_audio :: "disk \<Rightarrow> path \<Rightarrow> bool" where
  "is_audio d p = (case d p of Audio a \<Rightarrow> True | _ \<Rightarrow> False)"

section \<open>Example data\<close>

text \<open>A tagged file whose keys read as the texts saved under them.\<close>

definition plain :: audio_file where
  "plain = \<lparr>has_tags = True, tags = Map.empty, easy_view = (\<lambda>key vs. Some vs),
            apic = [], pictures = [], covr = None, mbp = None,
            rejects = (\<lambda>_ _. None), easy_save_error = None, raw_save_error = None\<rparr>"

definition five_paths :: "path list" where
  "five_paths = [''/m/1.mp3'', ''/m/2.mp3'', ''/m/3.mp3'', ''/m/4.mp3'', ''/m/5.mp3'']"

text \<open>Five files, the third of which the library does not recognise.\<close>

definition five_third_bad :: disk where
  "five_third_bad =
     (\<lambda>_. Unrecognised)
       (''/m/1.mp3'' := Audio plain, ''/m/2.mp3'' := Audio plain,
        ''/m/4.mp3'' := Audio plain, ''/m/5.mp3'' := Audio plain)"

definition five_good :: disk where
  "five_good = five_third_bad(''/m/3.mp3'' := Audio plain)"

text \<open>A file that takes its tags and then fails to persist through the raw interface.\<close>

definition full_device :: audio_file where
  "full_device = plain\<lparr>raw_save_error := Some ''No space left on device''\<rparr>"

definition two_paths :: "path list" where
  "two_paths = [''/m/a.mp3'', ''/m/b.mp3'']"

definition first_fails_art :: disk where
  "first_fails_art =
     (\<lambda>_. Unrecognised)(''/m/a.mp3'' := Audio full_device, ''/m/b.mp3'' := Audio plain)"

text \<open>A file with a title and a genre, and an editor of one file that renames and clears.\<close>

definition tagged :: audio_file where
  "tagged = plain\<lparr>tags := [''title'' \<mapsto> [''Old''], ''genre'' \<mapsto> [''Rock'']]\<rparr>"

definition one_tagged :: disk where
  "one_tagged = (\<lambda>_. Unrecognised)(''/m/a.flac'' := Audio tagged)"

definition two_tagged :: disk where
  "two_tagged = (\<lambda>_. Unrecognised)(''/m/a.flac'' := Audio tagged, ''/m/b.flac'' := Audio tagged)"

text \<open>
  A batch of two files in which only the title is checked; the field of the genre shows
  nothing.
\<close>

definition batch_editor :: editor where
  "batch_editor =
     \<lparr>selected_paths = [''/m/a.flac'', ''/m/b.flac''],
      checked = (\<lambda>tag_display. tag_display = ''Title''),
      field_text = (\<lambda>tag_display. if tag_display = ''Title'' then ''New'' else []),
      current_art_data = None, current_art_mime = None, art_is_dirty = False\<rparr>"

text \<open>A release of two tracks, and the selection of two files in the order b, a.\<close>

definition track_of :: "string \<Rightarrow> string \<Rightarrow> track" where
  "track_of num title =
     \<lparr>t_number = Some num, t_recording = Some \<lparr>rec_title = Some title\<rparr>,
      t_artist_credit_phrase = None\<rparr>"

definition two_tracks :: release where
  "two_tracks =
     \<lparr>medium_list = Some [\<lparr>track_list = Some [track_of ''1'' ''One'', track_of ''2'' ''Two''],
                           track_count = Some 2\<rparr>],
      r_artist_credit_phrase = Some ''Artist'', r_title = Some ''Album'',
      r_date = Some ''2021-05-01''\<rparr>"

definition b_then_a :: editor where
  "b_then_a =
     \<lparr>selected_paths = [''/m/b.mp3'', ''/m/a.mp3''],
      checked = (\<lambda>_. False), field_text = (\<lambda>_. []),
      current_art_data = None, current_art_mime = None, art_is_dirty = False\<rparr>"

definition a_and_b :: disk where
  "a_and_b = (\<lambda>_. Unrecognised)(''/m/a.mp3'' := Audio plain, ''/m/b.mp3'' := Audio plain)"

text \<open>Three tracks of a release that declares twelve, and three files.\<close>

definition three_of_twelve :: release where
  "three_of_twelve =
     \<lparr>medium_list =
        Some [\<lparr>track_list = Some [track_of ''1'' ''One'', track_of ''2'' ''Two'',
                                     track_of ''3'' ''Three''],
               track_count = Some 12\<rparr>],
      r_artist_credit_phrase = Some ''Artist'', r_title = Some ''Album'',
      r_date = Some ''2021-05-01''\<rparr>"

definition three_paths :: "path list" where
  "three_paths = [''/m/1.mp3'', ''/m/2.mp3'', ''/m/3.mp3'']"

text \<open>A release whose date is written without hyphens.\<close>

definition compact_date :: release where
  "compact_date =
     \<lparr>medium_list = Some [\<lparr>track_list = Some [track_of ''1'' ''One''], track_count = None\<rparr>],
      r_artist_credit_phrase = Some ''Artist'', r_title = Some ''Album'',
      r_date = Some ''20210501''\<rparr>"

definition one_track_dated :: release where
  "one_track_dated = compact_date\<lparr>r_date := Some ''2021-05-01''\<rparr>"

text \<open>A file of each container, and a FLAC file that already holds two pictures.\<close>

definition two_old_pictures :: audio_file where
  "two_old_pictures =
     tagged\<lparr>pictures := [cover_picture (Some ''image/jpeg'') ''OLD1'',
                          cover_picture (Some ''image/jpeg'') ''OLD2'']\<rparr>"

definition four_containers :: disk where
  "four_containers =
     (\<lambda>_. Unrecognised)
       (''/m/a.mp3'' := Audio plain, ''/m/a.flac'' := Audio two_old_pictures,
        ''/m/a.m4a'' := Audio plain, ''/m/a.ogg'' := Audio plain)"

text \<open>
  The reading of an \<^verbatim>\<open>.mp3\<close>, as far as the examples need it: a date that does not begin
  with four digits is not read, and the genre 17 reads as its name.
\<close>

definition id3_view :: "string \<Rightarrow> string list \<Rightarrow> string list option" where
  "id3_view key vs =
     (if key = ''date'' then
        (case filter (\<lambda>v. digits 4 (take 4 v)) vs of
           [] \<Rightarrow> None
         | w # ws \<Rightarrow> Some (w # ws))
      else if key = ''genre'' then Some (map (\<lambda>v. if v = ''17'' then ''Rock'' else v) vs)
      else Some vs)"

definition one_mp3 :: disk where
  "one_mp3 = (\<lambda>_. Unrecognised)(''/m/a.mp3'' := Audio (plain\<lparr>easy_view := id3_view\<rparr>))"

text \<open>A release that has no date.\<close>

definition undated :: release where
  "undated = one_track_dated\<lparr>r_date := None\<rparr>"

section \<open>Properties of one file\<close>

lemma TAG_MAP_inj:
  assumes "TAG_MAP a = Some k" and "TAG_MAP b = Some k"
  shows "a = b"
proof -
  have d: "distinct (map snd TAG_MAP_items)"
    by (simp add: TAG_MAP_items_def)
  then have inj: "inj_on snd (set TAG_MAP_items)"
    by (simp add: distinct_map)
  have ma: "(a, k) \<in> set TAG_MAP_items" and mb: "(b, k) \<in> set TAG_MAP_items"
    using assms by (auto simp: TAG_MAP_def dest: map_of_SomeD)
  have "snd (a, k) = snd (b, k)" by simp
  from inj_onD [OF inj this ma mb] show ?thesis by simp
qed

lemma set_album_art_keeps [simp]:
  "tags (set_album_art ext data M a) = tags a"
  "has_tags (set_album_art ext data M a) = has_tags a"
  "easy_view (set_album_art ext data M a) = easy_view a"
  "rejects (set_album_art ext data M a) = rejects a"
  "easy_save_error (set_album_art ext data M a) = easy_save_error a"
  "raw_save_error (set_album_art ext data M a) = raw_save_error a"
  by (simp_all add: set_album_art_def Let_def)

lemma save_album_art_cases:
  assumes "save_album_art_to_file d p data M = (res, d')"
  shows "(d' = d) \<or> (\<exists>a. d p = Audio a \<and> res = Inr ()
           \<and> d' = d(p := Audio (set_album_art (lower (splitext_ext p)) data M a)))"
  using assms
  by (auto simp: save_album_art_to_file_def Let_def split: entry.splits option.splits)

lemma save_album_art_tag_on:
  "tag_on (snd (save_album_art_to_file d p data M)) q key = tag_on d q key"
proof -
  obtain res d' where r: "save_album_art_to_file d p data M = (res, d')"
    by (cases "save_album_art_to_file d p data M")
  from save_album_art_cases [OF r] show ?thesis
    unfolding r by (auto simp: tag_on_def)
qed

lemma save_album_art_read_tag:
  "read_tag (snd (save_album_art_to_file d p data M)) q key = read_tag d q key"
proof -
  obtain res d' where r: "save_album_art_to_file d p data M = (res, d')"
    by (cases "save_album_art_to_file d p data M")
  from save_album_art_cases [OF r] show ?thesis
    unfolding r by (auto simp: read_tag_def easy_get_def split: option.splits)
qed

lemma save_album_art_is_audio:
  "is_audio (snd (save_album_art_to_file d p data M)) q = is_audio d q"
proof -
  obtain res d' where r: "save_album_art_to_file d p data M = (res, d')"
    by (cases "save_album_art_to_file d p data M")
  from save_album_art_cases [OF r] show ?thesis
    unfolding r by (cases "q = p") (auto simp: is_audio_def)
qed

lemma save_album_art_other:
  "q \<noteq> p \<Longrightarrow> snd (save_album_art_to_file d p data M) q = d q"
proof -
  assume "q \<noteq> p"
  obtain res d' where r: "save_album_art_to_file d p data M = (res, d')"
    by (cases "save_album_art_to_file d p data M")
  from save_album_art_cases [OF r] \<open>q \<noteq> p\<close> show ?thesis
    unfolding r by auto
qed

lemma set_tag_tags:
  "set_tag key v a = Inr a' \<Longrightarrow> tags a' = (tags a)(key \<mapsto> [v])"
  by (auto simp: set_tag_def split: option.splits)

lemma set_tag_view:
  "set_tag key v a = Inr a' \<Longrightarrow> easy_view a' = easy_view a"
  by (auto simp: set_tag_def split: option.splits)

lemma apply_tags_view:
  "apply_tags T a = Inr a' \<Longrightarrow> easy_view a' = easy_view a"
proof (induction T arbitrary: a)
  case Nil
  then show ?case by simp
next
  case (Cons tv T)
  obtain t v where tv: "tv = (t, v)" by (cases tv)
  from Cons.prems obtain k where k: "TAG_MAP t = Some k"
    unfolding tv by (auto split: option.splits)
  show ?case
  proof (cases "v = []")
    case False
    then obtain a1 where s: "set_tag k v a = Inr a1" and r: "apply_tags T a1 = Inr a'"
      using Cons.prems k unfolding tv by (auto split: sum.splits)
    from Cons.IH [OF r] set_tag_view [OF s] show ?thesis by simp
  next
    case True
    show ?thesis
    proof (cases "easy_get a k = None")
      case True
      with \<open>v = []\<close> Cons.prems k have "apply_tags T a = Inr a'"
        unfolding tv by simp
      from Cons.IH [OF this] show ?thesis .
    next
      case False
      with \<open>v = []\<close> Cons.prems k have r: "apply_tags T (del_tag k a) = Inr a'"
        unfolding tv by simp
      from Cons.IH [OF r] show ?thesis by (simp add: del_tag_def)
    qed
  qed
qed

lemma apply_tags_frame:
  "\<forall>tv\<in>set T. TAG_MAP (fst tv) \<noteq> Some key \<Longrightarrow> apply_tags T a = Inr a' \<Longrightarrow>
   tags a' key = tags a key"
proof (induction T arbitrary: a)
  case Nil
  then show ?case by simp
next
  case (Cons tv T)
  obtain t v where tv: "tv = (t, v)" by (cases tv)
  from Cons.prems(2) obtain k where k: "TAG_MAP t = Some k"
    unfolding tv by (auto split: option.splits)
  have kk: "k \<noteq> key" using Cons.prems(1) k tv by auto
  have rest: "\<forall>tv\<in>set T. TAG_MAP (fst tv) \<noteq> Some key" using Cons.prems(1) by simp
  show ?case
  proof (cases "v = []")
    case False
    then obtain a1 where s: "set_tag k v a = Inr a1" and r: "apply_tags T a1 = Inr a'"
      using Cons.prems(2) k unfolding tv by (auto split: sum.splits)
    have "tags a1 key = tags a key" using set_tag_tags [OF s] kk by simp
    with Cons.IH [OF rest r] show ?thesis by simp
  next
    case True
    show ?thesis
    proof (cases "easy_get a k = None")
      case True
      with \<open>v = []\<close> Cons.prems(2) k have "apply_tags T a = Inr a'"
        unfolding tv by simp
      from Cons.IH [OF rest this] show ?thesis .
    next
      case False
      with \<open>v = []\<close> Cons.prems(2) k have r: "apply_tags T (del_tag k a) = Inr a'"
        unfolding tv by simp
      have "tags (del_tag k a) key = tags a key" using kk by (simp add: del_tag_def)
      with Cons.IH [OF rest r] show ?thesis by simp
    qed
  qed
qed

text \<open>
  What the loop over the fields leaves under the key of an applied field: the value, if it
  is not empty; otherwise a key that reads as absent.
\<close>

lemma apply_tags_value:
  "distinct (map fst T) \<Longrightarrow> (t, v) \<in> set T \<Longrightarrow> TAG_MAP t = Some key \<Longrightarrow>
   apply_tags T a = Inr a' \<Longrightarrow>
   (if v = [] then easy_get a' key = None else tags a' key = Some [v])"
proof (induction T arbitrary: a)
  case Nil
  then show ?case by simp
next
  case (Cons tv T)
  obtain t0 v0 where tv: "tv = (t0, v0)" by (cases tv)
  from Cons.prems(4) obtain k where k: "TAG_MAP t0 = Some k"
    unfolding tv by (auto split: option.splits)
  have dT: "distinct (map fst T)" and t0: "t0 \<notin> fst ` set T"
    using Cons.prems(1) tv by auto
  obtain a1 where a1: "apply_tags T a1 = Inr a'"
      and a1_view: "easy_view a1 = easy_view a"
      and a1_tags: "if v0 = [] then easy_get a1 k = None else tags a1 k = Some [v0]"
  proof (cases "v0 = []")
    case False
    then obtain b where s: "set_tag k v0 a = Inr b" and r: "apply_tags T b = Inr a'"
      using Cons.prems(4) k unfolding tv by (auto split: sum.splits)
    show ?thesis using that [OF r] set_tag_tags [OF s] set_tag_view [OF s] False by simp
  next
    case True
    show ?thesis
    proof (cases "easy_get a k = None")
      case True
      with \<open>v0 = []\<close> Cons.prems(4) k have r: "apply_tags T a = Inr a'"
        unfolding tv by simp
      with that [OF r] \<open>v0 = []\<close> True show ?thesis by simp
    next
      case False
      with \<open>v0 = []\<close> Cons.prems(4) k have r: "apply_tags T (del_tag k a) = Inr a'"
        unfolding tv by simp
      show ?thesis using that [OF r] \<open>v0 = []\<close> by (simp add: del_tag_def easy_get_def)
    qed
  qed
  show ?case
  proof (cases "(t, v) = (t0, v0)")
    case True
    then have same: "k = key" using k Cons.prems(3) by simp
    have "\<forall>tv\<in>set T. TAG_MAP (fst tv) \<noteq> Some key"
    proof
      fix x assume x: "x \<in> set T"
      show "TAG_MAP (fst x) \<noteq> Some key"
      proof
        assume "TAG_MAP (fst x) = Some key"
        then have "fst x = t" using Cons.prems(3) by (rule TAG_MAP_inj)
        with x True t0 show False by force
      qed
    qed
    from apply_tags_frame [OF this a1] have keep: "tags a' key = tags a1 key" .
    have view: "easy_view a' = easy_view a1" using apply_tags_view [OF a1] .
    show ?thesis
    proof (cases "v0 = []")
      case empty: True
      with a1_tags same have "easy_get a1 key = None" by simp
      then have "easy_get a' key = None"
        using keep view by (simp add: easy_get_def split: option.splits)
      with empty True show ?thesis by simp
    next
      case False
      with a1_tags same have "tags a1 key = Some [v0]" by simp
      with keep False True show ?thesis by simp
    qed
  next
    case False
    then have "(t, v) \<in> set T" using Cons.prems(2) tv by auto
    from Cons.IH [OF dT this Cons.prems(3) a1] show ?thesis .
  qed
qed

section \<open>Properties of the batch save\<close>


lemma save_loop_stop_now:
  "stop i \<Longrightarrow> save_loop stop T A M n i ps r = r"
  by (cases ps) simp_all

lemma save_loop_append:
  "\<forall>j<length xs. \<not> stop (i + j) \<Longrightarrow>
   save_loop stop T A M n i (xs @ ys) r =
     save_loop stop T A M n (i + length xs) ys (save_loop stop T A M n i xs r)"
proof (induction xs arbitrary: i r)
  case Nil
  then show ?case by simp
next
  case (Cons x xs)
  have ns: "\<not> stop i" using Cons.prems by force
  have rest: "\<forall>j<length xs. \<not> stop (Suc i + j)"
    using Cons.prems by force
  show ?case
    using ns Cons.IH [OF rest] by (simp add: Let_def split: prod.splits)
qed

lemma save_loop_shift:
  assumes "disk_now r = disk_now r'"
      and "\<forall>j<length xs. \<not> stop (i + j)"
      and "\<forall>j<length xs. \<not> stop' (i' + j)"
  shows "disk_now (save_loop stop T A M n i xs r) = disk_now (save_loop stop' T A M n' i' xs r')
       \<and> saved (save_loop stop T A M n i xs r) + saved r' = saved (save_loop stop' T A M n' i' xs r') + saved r
       \<and> (\<exists>es. errs (save_loop stop T A M n i xs r) = errs r @ es
              \<and> errs (save_loop stop' T A M n' i' xs r') = errs r' @ es)"
  using assms
proof (induction xs arbitrary: i i' r r')
  case Nil
  then show ?case by simp
next
  case (Cons x xs)
  have ns: "\<not> stop i" "\<not> stop' i'" using Cons.prems by force+
  have rest: "\<forall>j<length xs. \<not> stop (Suc i + j)" "\<forall>j<length xs. \<not> stop' (Suc i' + j)"
    using Cons.prems by force+
  obtain res d' where sf: "save_file (disk_now r) x T A M = (res, d')"
    by (cases "save_file (disk_now r) x T A M")
  have sf': "save_file (disk_now r') x T A M = (res, d')"
    using sf Cons.prems(1) by simp
  show ?case
  proof (cases res)
    case (Inl e)
    let ?m = "''Error saving '' @ basename x @ '': '' @ str_exn e"
    let ?r1 = "r\<lparr>disk_now := d', errs := errs r @ [?m], emitted := emitted r @ [(Suc i, n)]\<rparr>"
    let ?r1' = "r'\<lparr>disk_now := d', errs := errs r' @ [?m], emitted := emitted r' @ [(Suc i', n')]\<rparr>"
    have a: "save_loop stop T A M n i (x # xs) r = save_loop stop T A M n (Suc i) xs ?r1"
      using ns sf Inl by simp
    have b: "save_loop stop' T A M n' i' (x # xs) r' = save_loop stop' T A M n' (Suc i') xs ?r1'"
      using ns sf' Inl by simp
    have "disk_now ?r1 = disk_now ?r1'" by simp
    from Cons.IH [OF this rest] show ?thesis
      unfolding a b by auto
  next
    case (Inr u)
    let ?r1 = "r\<lparr>disk_now := d', saved := saved r + 1, emitted := emitted r @ [(Suc i, n)]\<rparr>"
    let ?r1' = "r'\<lparr>disk_now := d', saved := saved r' + 1, emitted := emitted r' @ [(Suc i', n')]\<rparr>"
    have a: "save_loop stop T A M n i (x # xs) r = save_loop stop T A M n (Suc i) xs ?r1"
      using ns sf Inr by simp
    have b: "save_loop stop' T A M n' i' (x # xs) r' = save_loop stop' T A M n' (Suc i') xs ?r1'"
      using ns sf' Inr by simp
    have "disk_now ?r1 = disk_now ?r1'" by simp
    from Cons.IH [OF this rest] show ?thesis
      unfolding a b by auto
  qed
qed

lemma save_loop_emitted:
  "\<forall>j<length xs. \<not> stop (i + j) \<Longrightarrow>
   emitted (save_loop stop T A M n i xs r) = emitted r @ map (\<lambda>j. (Suc j, n)) [i..<i + length xs]"
proof (induction xs arbitrary: i r)
  case Nil
  then show ?case by simp
next
  case (Cons x xs)
  have ns: "\<not> stop i" using Cons.prems by force
  have rest: "\<forall>j<length xs. \<not> stop (Suc i + j)"
    using Cons.prems by force
  have u: "[i..<i + length (x # xs)] = i # [Suc i..<Suc i + length xs]"
    using upt_conv_Cons [of i "i + length (x # xs)"] by (simp del: upt_Suc)
  show ?case
    unfolding u using ns Cons.IH [OF rest]
    by (simp add: Let_def del: upt_Suc split: prod.splits sum.splits)
qed

lemma save_loop_tally:
  "\<forall>j<length xs. \<not> stop (i + j) \<Longrightarrow>
   saved (save_loop stop T A M n i xs r) + length (errs (save_loop stop T A M n i xs r))
     = saved r + length (errs r) + length xs"
proof (induction xs arbitrary: i r)
  case Nil
  then show ?case by simp
next
  case (Cons x xs)
  have ns: "\<not> stop i" using Cons.prems by force
  have rest: "\<forall>j<length xs. \<not> stop (Suc i + j)"
    using Cons.prems by force
  show ?case
    using ns Cons.IH [OF rest]
    by (simp add: Let_def split: prod.splits sum.splits)
qed


lemma save_loop_cong_stop:
  "\<forall>j<length xs. stop (i + j) = stop' (i + j) \<Longrightarrow>
   save_loop stop T A M n i xs r = save_loop stop' T A M n i xs r"
proof (induction xs arbitrary: i r)
  case Nil
  then show ?case by simp
next
  case (Cons x xs)
  have ns: "stop i = stop' i" using Cons.prems by force
  have rest: "\<forall>j<length xs. stop (Suc i + j) = stop' (Suc i + j)"
    using Cons.prems by force
  show ?case
    using ns Cons.IH [OF rest] by (simp add: Let_def split: prod.splits)
qed

text \<open>What one failing file does to the report of a batch that is not stopped.\<close>

lemma save_loop_failure:
  assumes nostop: "\<forall>i<length (pre @ p # post). \<not> stop i"
      and fail: "save_file (disk_now (process_and_save stop d pre T A M)) p T A M = (Inl e, d')"
  shows "errors (finished (pre @ p # post) (process_and_save stop d (pre @ p # post) T A M)) =
           errs (process_and_save stop d pre T A M)
             @ [''Error saving '' @ basename p @ '': '' @ str_exn e]
             @ errs (process_and_save (\<lambda>_. False) d' post T A M)
       \<and> saved_count (finished (pre @ p # post) (process_and_save stop d (pre @ p # post) T A M)) =
           saved (process_and_save stop d pre T A M)
             + saved (process_and_save (\<lambda>_. False) d' post T A M)
       \<and> total_files (finished (pre @ p # post) (process_and_save stop d (pre @ p # post) T A M)) =
           length (pre @ p # post)
       \<and> disk_now (process_and_save stop d (pre @ p # post) T A M) =
           disk_now (process_and_save (\<lambda>_. False) d' post T A M)
       \<and> length (emitted (process_and_save stop d (pre @ p # post) T A M)) =
           length (pre @ p # post) + 1"
proof -
  let ?n = "length (pre @ p # post)"
  let ?r0 = "\<lparr>disk_now = d, saved = 0, errs = [], emitted = [(0, ?n)]\<rparr>"
  let ?rp = "\<lparr>disk_now = d, saved = 0, errs = [], emitted = [(0, length pre)]\<rparr>"
  let ?r1 = "save_loop stop T A M ?n 0 pre ?r0"
  let ?m = "''Error saving '' @ basename p @ '': '' @ str_exn e"
  let ?r2 = "?r1\<lparr>disk_now := d', errs := errs ?r1 @ [?m],
                 emitted := emitted ?r1 @ [(Suc (length pre), ?n)]\<rparr>"
  let ?q0 = "\<lparr>disk_now = d', saved = 0, errs = [], emitted = [(0, length post)]\<rparr>"
  let ?whole = "process_and_save stop d (pre @ p # post) T A M"
  have ns_pre: "\<forall>j<length pre. \<not> stop (0 + j)" using nostop by simp
  have ns_p: "\<not> stop (length pre)" using nostop by simp
  have ns_post: "\<forall>j<length post. \<not> stop (Suc (length pre) + j)" using nostop by simp
  have ns_f: "\<forall>j<length post. \<not> (\<lambda>_. False) (0 + j)" by simp
  have pre_eq: "disk_now ?r1 = disk_now (process_and_save stop d pre T A M)
      \<and> saved ?r1 = saved (process_and_save stop d pre T A M)
      \<and> errs ?r1 = errs (process_and_save stop d pre T A M)"
    using save_loop_shift [of ?r0 ?rp pre stop 0 stop 0 T A M ?n "length pre", OF _ ns_pre ns_pre]
    by (simp add: process_and_save_def)
  have sf: "save_file (disk_now ?r1) p T A M = (Inl e, d')"
    using fail pre_eq by simp
  have whole: "?whole = save_loop stop T A M ?n (Suc (length pre)) post ?r2"
    unfolding process_and_save_def
    using save_loop_append [of pre stop 0 T A M ?n "p # post" ?r0, OF ns_pre] ns_p sf
    by simp
  have post_eq: "disk_now ?whole = disk_now (process_and_save (\<lambda>_. False) d' post T A M)
      \<and> saved ?whole = saved ?r1 + saved (process_and_save (\<lambda>_. False) d' post T A M)
      \<and> errs ?whole = errs ?r1 @ [?m] @ errs (process_and_save (\<lambda>_. False) d' post T A M)"
    using save_loop_shift [of ?r2 ?q0 post stop "Suc (length pre)" "\<lambda>_. False" 0 T A M ?n "length post",
        OF _ ns_post ns_f]
    unfolding whole by (auto simp add: process_and_save_def)
  have em: "length (emitted ?whole) = ?n + 1"
    unfolding process_and_save_def
    using save_loop_emitted [of "pre @ p # post" stop 0 T A M ?n ?r0] nostop
    by simp
  show ?thesis
    using pre_eq post_eq em by (simp add: finished_def)
qed

text \<open>
  Claim C1. In a batch save that is not stopped, an exception while saving one file appends
  exactly one entry to the error list, which names the base name of that file and carries
  the message of the exception, and the files after it are all processed: the errors are
  those of the files before, this entry, and those of a complete batch over the files
  after; the count is the sum of the counts of both; the disk is the one that batch over
  the files after leaves; the total is the number of files; a progress signal is emitted
  for every file.
\<close>

theorem batch_save_isolates_failure:
  assumes nostop: "\<forall>i<length (pre @ p # post). \<not> stop i"
      and fail: "save_file (disk_now (process_and_save stop d pre T A M)) p T A M = (Inl e, d')"
  shows "errors (finished (pre @ p # post) (process_and_save stop d (pre @ p # post) T A M)) =
           errs (process_and_save stop d pre T A M)
             @ [''Error saving '' @ basename p @ '': '' @ str_exn e]
             @ errs (process_and_save (\<lambda>_. False) d' post T A M)
       \<and> saved_count (finished (pre @ p # post) (process_and_save stop d (pre @ p # post) T A M)) =
           saved (process_and_save stop d pre T A M)
             + saved (process_and_save (\<lambda>_. False) d' post T A M)
       \<and> total_files (finished (pre @ p # post) (process_and_save stop d (pre @ p # post) T A M)) =
           length (pre @ p # post)
       \<and> disk_now (process_and_save stop d (pre @ p # post) T A M) =
           disk_now (process_and_save (\<lambda>_. False) d' post T A M)
       \<and> length (emitted (process_and_save stop d (pre @ p # post) T A M)) =
           length (pre @ p # post) + 1"
  using nostop fail by (rule save_loop_failure)

text \<open>
  Five files of which only the third throws: four are counted, the one entry names the
  third, and the fourth and the fifth carry the new title.
\<close>

theorem batch_save_isolates_failure_witness:
  "fst (save_file
        (disk_now (process_and_save (\<lambda>_. False) five_third_bad [''/m/1.mp3'', ''/m/2.mp3'']
           [(''Title'', ''x'')] None None))
        ''/m/3.mp3'' [(''Title'', ''x'')] None None)
       = Inl (TypeError ''File could not be opened by mutagen.'')
   \<and> saved_count (finished five_paths
        (process_and_save (\<lambda>_. False) five_third_bad five_paths [(''Title'', ''x'')] None None))
       = 4
   \<and> total_files (finished five_paths
        (process_and_save (\<lambda>_. False) five_third_bad five_paths [(''Title'', ''x'')] None None))
       = 5
   \<and> errors (finished five_paths
        (process_and_save (\<lambda>_. False) five_third_bad five_paths [(''Title'', ''x'')] None None))
       = [''Error saving 3.mp3: File could not be opened by mutagen.'']
   \<and> tag_on (disk_now (process_and_save (\<lambda>_. False) five_third_bad five_paths
                 [(''Title'', ''x'')] None None)) ''/m/4.mp3'' ''title'' = Some [''x'']
   \<and> tag_on (disk_now (process_and_save (\<lambda>_. False) five_third_bad five_paths
                 [(''Title'', ''x'')] None None)) ''/m/5.mp3'' ''title'' = Some [''x'']"
proof -
  let ?T = "[(''Title'', ''x'')]"
  let ?pre = "[''/m/1.mp3'', ''/m/2.mp3'']"
  let ?post = "[''/m/4.mp3'', ''/m/5.mp3'']"
  let ?dpre = "disk_now (process_and_save (\<lambda>_. False) five_third_bad ?pre ?T None None)"
  let ?whole = "process_and_save (\<lambda>_. False) five_third_bad five_paths ?T None None"
  let ?rest = "process_and_save (\<lambda>_. False) ?dpre ?post ?T None None"
  have paths: "five_paths = ?pre @ ''/m/3.mp3'' # ?post"
    by (simp add: five_paths_def)
  have h1: "\<forall>i<length (?pre @ ''/m/3.mp3'' # ?post). \<not> (\<lambda>_. False) i"
    by simp
  have third: "?dpre ''/m/3.mp3'' = Unrecognised"
    by (simp add: process_and_save_def save_file_def five_third_bad_def plain_def
        TAG_MAP_def TAG_MAP_items_def set_tag_def)
  have h2: "save_file ?dpre ''/m/3.mp3'' ?T None None
              = (Inl (TypeError ''File could not be opened by mutagen.''), ?dpre)"
    by (simp add: save_file_def third)
  have pre_errs: "errs (process_and_save (\<lambda>_. False) five_third_bad ?pre ?T None None) = []"
    by code_simp
  have pre_saved: "saved (process_and_save (\<lambda>_. False) five_third_bad ?pre ?T None None) = 2"
    by code_simp
  have post_errs: "errs ?rest = []"
    by code_simp
  have post_saved: "saved ?rest = 2"
    by code_simp
  have t4: "tag_on (disk_now ?rest) ''/m/4.mp3'' ''title'' = Some [''x'']"
    by code_simp
  have t5: "tag_on (disk_now ?rest) ''/m/5.mp3'' ''title'' = Some [''x'']"
    by code_simp
  have name: "basename ''/m/3.mp3'' = ''3.mp3''"
    by (simp add: basename_def)
  note step = batch_save_isolates_failure [OF h1 h2]
  have e: "errors (finished five_paths ?whole)
             = [''Error saving 3.mp3: File could not be opened by mutagen.'']"
    using step [THEN conjunct1] by (simp add: paths pre_errs post_errs name)
  have c: "saved_count (finished five_paths ?whole) = 4"
    using step [THEN conjunct2, THEN conjunct1] by (simp add: paths pre_saved post_saved)
  have n: "total_files (finished five_paths ?whole) = 5"
    using step [THEN conjunct2, THEN conjunct2, THEN conjunct1] by (simp add: paths)
  have d: "disk_now ?whole = disk_now ?rest"
    using step [THEN conjunct2, THEN conjunct2, THEN conjunct2, THEN conjunct1]
    by (simp add: paths)
  show ?thesis
    using h2 e c n t4 t5 by (simp add: d)
qed

text \<open>
  Claim C7. When the stop flag is found set before the file of index \<open>k\<close>, after \<open>k\<close> files
  of a batch of \<open>n\<close> have been attempted, the run is the run over the first \<open>k\<close> files and
  nothing more: the report counts and lists those \<open>k\<close> files only, its total is still \<open>n\<close>, the
  last progress signal is \<open>(k, n)\<close>, and the disk is the one a batch over the first \<open>k\<close> files
  leaves.
\<close>

theorem stop_halts_batch:
  assumes k: "k < length ps"
      and flag: "stop k"
      and before: "\<forall>j<k. \<not> stop j"
  shows "process_and_save stop d ps T A M =
           save_loop (\<lambda>_. False) T A M (length ps) 0 (take k ps)
             \<lparr>disk_now = d, saved = 0, errs = [], emitted = [(0, length ps)]\<rparr>
       \<and> total_files (finished ps (process_and_save stop d ps T A M)) = length ps
       \<and> saved_count (finished ps (process_and_save stop d ps T A M))
           + length (errors (finished ps (process_and_save stop d ps T A M))) = k
       \<and> emitted (process_and_save stop d ps T A M) = map (\<lambda>j. (j, length ps)) [0..<Suc k]
       \<and> disk_now (process_and_save stop d ps T A M) =
           disk_now (process_and_save (\<lambda>_. False) d (take k ps) T A M)
       \<and> saved_count (finished ps (process_and_save stop d ps T A M)) =
           saved (process_and_save (\<lambda>_. False) d (take k ps) T A M)
       \<and> errors (finished ps (process_and_save stop d ps T A M)) =
           errs (process_and_save (\<lambda>_. False) d (take k ps) T A M)"
proof -
  let ?n = "length ps"
  let ?r0 = "\<lparr>disk_now = d, saved = 0, errs = [], emitted = [(0, ?n)]\<rparr>"
  let ?rk = "\<lparr>disk_now = d, saved = 0, errs = [], emitted = [(0, length (take k ps))]\<rparr>"
  let ?r1 = "save_loop (\<lambda>_. False) T A M ?n 0 (take k ps) ?r0"
  have len: "length (take k ps) = k" using k by simp
  have ns: "\<forall>j<length (take k ps). \<not> stop (0 + j)" using before len by simp
  have nf: "\<forall>j<length (take k ps). \<not> (\<lambda>_. False) (0 + j)" by simp
  have agree: "\<forall>j<length (take k ps). stop (0 + j) = (\<lambda>_. False) (0 + j)"
    using before len by simp
  have split: "ps = take k ps @ drop k ps" by simp
  have "save_loop stop T A M ?n 0 (take k ps @ drop k ps) ?r0 =
          save_loop stop T A M ?n (0 + length (take k ps)) (drop k ps)
            (save_loop stop T A M ?n 0 (take k ps) ?r0)"
    by (rule save_loop_append [OF ns])
  also have "\<dots> = save_loop stop T A M ?n 0 (take k ps) ?r0"
    using flag len by (simp add: save_loop_stop_now)
  also have "\<dots> = ?r1"
    by (rule save_loop_cong_stop [OF agree])
  finally have run: "process_and_save stop d ps T A M = ?r1"
    by (simp add: process_and_save_def)
  have tally: "saved ?r1 + length (errs ?r1) = k"
    using save_loop_tally [of "take k ps" "\<lambda>_. False" 0 T A M ?n ?r0] len by simp
  have em: "emitted ?r1 = map (\<lambda>j. (j, ?n)) [0..<Suc k]"
  proof -
    have "emitted ?r1 = (0, ?n) # map (\<lambda>j. (Suc j, ?n)) [0..<k]"
      using save_loop_emitted [of "take k ps" "\<lambda>_. False" 0 T A M ?n ?r0] len by simp
    also have "\<dots> = map (\<lambda>j. (j, ?n)) (0 # map Suc [0..<k])"
      by (simp add: comp_def)
    also have "0 # map Suc [0..<k] = [0..<Suc k]"
      by (simp add: map_Suc_upt upt_conv_Cons del: upt_Suc)
    finally show ?thesis .
  qed
  have same: "disk_now ?r1 = disk_now (process_and_save (\<lambda>_. False) d (take k ps) T A M)
      \<and> saved ?r1 = saved (process_and_save (\<lambda>_. False) d (take k ps) T A M)
      \<and> errs ?r1 = errs (process_and_save (\<lambda>_. False) d (take k ps) T A M)"
    using save_loop_shift [of ?r0 ?rk "take k ps" "\<lambda>_. False" 0 "\<lambda>_. False" 0 T A M ?n "length (take k ps)",
        OF _ nf nf]
    by (simp add: process_and_save_def)
  show ?thesis
    unfolding run using tally em same by (simp add: finished_def)
qed

text \<open>Stopping after the second of five good files: two are counted, the total is five.\<close>

theorem stop_halts_batch_witness:
  "(2::nat) < length five_paths
   \<and> saved_count (finished five_paths
        (process_and_save (\<lambda>i. i = 2) five_good five_paths [(''Title'', ''x'')] None None)) = 2
   \<and> total_files (finished five_paths
        (process_and_save (\<lambda>i. i = 2) five_good five_paths [(''Title'', ''x'')] None None)) = 5
   \<and> errors (finished five_paths
        (process_and_save (\<lambda>i. i = 2) five_good five_paths [(''Title'', ''x'')] None None)) = []
   \<and> tag_on (disk_now (process_and_save (\<lambda>i. i = 2) five_good five_paths
                 [(''Title'', ''x'')] None None)) ''/m/2.mp3'' ''title'' = Some [''x'']
   \<and> tag_on (disk_now (process_and_save (\<lambda>i. i = 2) five_good five_paths
                 [(''Title'', ''x'')] None None)) ''/m/3.mp3'' ''title'' = None"
proof -
  let ?T = "[(''Title'', ''x'')]"
  let ?whole = "process_and_save (\<lambda>i. i = 2) five_good five_paths ?T None None"
  let ?two = "process_and_save (\<lambda>_. False) five_good (take 2 five_paths) ?T None None"
  have h1: "(2::nat) < length five_paths" by (simp add: five_paths_def)
  have h2: "(\<lambda>i. i = (2::nat)) 2" by simp
  have h3: "\<forall>j<2. \<not> (\<lambda>i. i = (2::nat)) j" by simp
  have s2: "saved ?two = 2" by code_simp
  have e2: "errs ?two = []" by code_simp
  have t2: "tag_on (disk_now ?two) ''/m/2.mp3'' ''title'' = Some [''x'']" by code_simp
  have t3: "tag_on (disk_now ?two) ''/m/3.mp3'' ''title'' = None" by code_simp
  have len: "length five_paths = 5" by (simp add: five_paths_def)
  note halt = stop_halts_batch [of 2 five_paths "\<lambda>i. i = 2" five_good ?T None None, OF h1 h2 h3]
  have n: "total_files (finished five_paths ?whole) = 5"
    using halt [THEN conjunct2, THEN conjunct1] by (simp add: len)
  have d: "disk_now ?whole = disk_now ?two"
    using halt [THEN conjunct2, THEN conjunct2, THEN conjunct2, THEN conjunct2, THEN conjunct1] .
  have c: "saved_count (finished five_paths ?whole) = 2"
    using halt [THEN conjunct2, THEN conjunct2, THEN conjunct2, THEN conjunct2, THEN conjunct2,
        THEN conjunct1] by (simp add: s2)
  have e: "errors (finished five_paths ?whole) = []"
    using halt [THEN conjunct2, THEN conjunct2, THEN conjunct2, THEN conjunct2, THEN conjunct2,
        THEN conjunct2] by (simp add: e2)
  show ?thesis
    using h1 c n e t2 t3 by (simp add: d)
qed

section \<open>Which fields a save touches\<close>

lemma save_file_tags_saved:
  assumes "save_file d path T A M = (Inr (), d')"
  shows "\<exists>a a'. d path = Audio a \<and> apply_tags T a = Inr a'
           \<and> tag_on d' path = tags a' \<and> read_tag d' path = easy_get a'"
proof -
  from assms obtain a where a: "d path = Audio a"
    by (auto simp: save_file_def split: entry.splits)
  from assms a obtain a' where a': "apply_tags T a = Inr a'"
    by (auto simp: save_file_def split: sum.splits)
  from assms a a' have ok: "easy_save_error a' = None"
    by (auto simp: save_file_def split: option.splits)
  let ?d1 = "d(path := Audio a')"
  have d1: "tag_on ?d1 path = tags a'" "read_tag ?d1 path = easy_get a'"
    by (auto simp: tag_on_def read_tag_def)
  have "tag_on d' path = tags a' \<and> read_tag d' path = easy_get a'"
  proof (cases A)
    case None
    with assms a a' ok have "d' = ?d1" by (simp add: save_file_def)
    with d1 show ?thesis by simp
  next
    case (Some data)
    with assms a a' ok have "d' = snd (save_album_art_to_file ?d1 path data M)"
      by (simp add: save_file_def)
    then show ?thesis
      using d1 by (auto simp: save_album_art_tag_on save_album_art_read_tag)
  qed
  with a a' show ?thesis by blast
qed

text \<open>
  Claim C6, as amended. For every field applied to a file that the batch counts as saved: a
  value that is not empty is the text saved under the native key afterwards, whatever was
  there before, and the key then reads as the container's interface reads that text (as
  the value itself where the interface reads texts as they are); after an empty value the
  key reads as absent. The text saved under the key of an applied field is never empty.
\<close>

theorem applied_field_saved_or_removed:
  assumes "save_file d path T A M = (Inr (), d')"
      and "distinct (map fst T)"
      and "(t, v) \<in> set T"
      and "TAG_MAP t = Some key"
  shows "\<exists>a. d path = Audio a
       \<and> (if v = [] then read_tag d' path key = None
           else tag_on d' path key = Some [v]
              \<and> read_tag d' path key = easy_view a key [v]
              \<and> (easy_view a key [v] = Some [v] \<longrightarrow> read_tag d' path key = Some [v]))"
proof -
  from save_file_tags_saved [OF assms(1)] obtain a a'
    where a: "d path = Audio a" and ap: "apply_tags T a = Inr a'"
      and t: "tag_on d' path = tags a'" and r: "read_tag d' path = easy_get a'" by blast
  have view: "easy_view a' = easy_view a" using apply_tags_view [OF ap] .
  from apply_tags_value [OF assms(2) assms(3) assms(4) ap]
  have "if v = [] then read_tag d' path key = None
        else tag_on d' path key = Some [v] \<and> read_tag d' path key = easy_view a key [v]"
    using t r view by (auto simp: easy_get_def)
  with a show ?thesis by (cases "v = []") auto
qed

text \<open>
  On a file that reads its keys as they are saved, a new title overwrites the old one, and
  the empty genre removes the genre.
\<close>

theorem applied_field_saved_or_removed_witness:
  "fst (save_file one_tagged ''/m/a.flac'' [(''Title'', ''New''), (''Genre'', [])] None None) = Inr ()
   \<and> read_tag one_tagged ''/m/a.flac'' ''genre'' = Some [''Rock'']
   \<and> read_tag (snd (save_file one_tagged ''/m/a.flac'' [(''Title'', ''New''), (''Genre'', [])] None None))
        ''/m/a.flac'' ''genre'' = None
   \<and> read_tag (snd (save_file one_tagged ''/m/a.flac'' [(''Title'', ''New''), (''Genre'', [])] None None))
        ''/m/a.flac'' ''title'' = Some [''New'']"
proof -
  let ?T = "[(''Title'', ''New''), (''Genre'', [])]"
  let ?s = "save_file one_tagged ''/m/a.flac'' ?T None None"
  have ok: "fst ?s = Inr ()" by code_simp
  then have run: "?s = (Inr (), snd ?s)" by (metis prod.collapse)
  have dis: "distinct (map fst ?T)" by simp
  have g: "(''Genre'', []) \<in> set ?T" and t: "(''Title'', ''New'') \<in> set ?T" by simp_all
  have kg: "TAG_MAP ''Genre'' = Some ''genre''" and kt: "TAG_MAP ''Title'' = Some ''title''"
    by (simp_all add: TAG_MAP_def TAG_MAP_items_def)
  have held: "one_tagged ''/m/a.flac'' = Audio tagged" by (simp add: one_tagged_def)
  have as_saved: "easy_view tagged ''title'' [''New''] = Some [''New'']"
    by (simp add: tagged_def plain_def)
  have old: "read_tag one_tagged ''/m/a.flac'' ''genre'' = Some [''Rock'']" by code_simp
  have gone: "read_tag (snd ?s) ''/m/a.flac'' ''genre'' = None"
    using applied_field_saved_or_removed [OF run dis g kg] by simp
  have new: "read_tag (snd ?s) ''/m/a.flac'' ''title'' = Some [''New'']"
    using applied_field_saved_or_removed [OF run dis t kt] held as_saved by simp
  show ?thesis using ok old gone new by simp
qed

text \<open>
  Claim C6 as it was stated fails on a file whose interface does not read every text as it
  is saved: an \<^verbatim>\<open>.mp3\<close> is counted as saved with the year abcd and has no date to read
  afterwards, and its genre 17 reads as Rock.
\<close>

theorem applied_value_not_read_back:
  "fst (save_file one_mp3 ''/m/a.mp3'' [(''Year'', ''abcd''), (''Genre'', ''17'')] None None) = Inr ()
   \<and> read_tag (snd (save_file one_mp3 ''/m/a.mp3'' [(''Year'', ''abcd''), (''Genre'', ''17'')]
                      None None)) ''/m/a.mp3'' ''date'' = None
   \<and> read_tag (snd (save_file one_mp3 ''/m/a.mp3'' [(''Year'', ''abcd''), (''Genre'', ''17'')]
                      None None)) ''/m/a.mp3'' ''genre'' = Some [''Rock'']"
proof -
  have a: "fst (save_file one_mp3 ''/m/a.mp3'' [(''Year'', ''abcd''), (''Genre'', ''17'')]
                  None None) = Inr ()"
    by code_simp
  have b: "read_tag (snd (save_file one_mp3 ''/m/a.mp3'' [(''Year'', ''abcd''), (''Genre'', ''17'')]
                      None None)) ''/m/a.mp3'' ''date'' = None"
    by code_simp
  have c: "read_tag (snd (save_file one_mp3 ''/m/a.mp3'' [(''Year'', ''abcd''), (''Genre'', ''17'')]
                      None None)) ''/m/a.mp3'' ''genre'' = Some [''Rock'']"
    by code_simp
  show ?thesis using a b c by simp
qed

lemma save_file_frame:
  assumes "\<forall>tv\<in>set T. TAG_MAP (fst tv) \<noteq> Some key"
  shows "tag_on (snd (save_file d path T A M)) q key = tag_on d q key
       \<and> is_audio (snd (save_file d path T A M)) q = is_audio d q"
proof (cases "d path")
  case (Unreadable m)
  then show ?thesis by (simp add: save_file_def)
next
  case Unrecognised
  then show ?thesis by (simp add: save_file_def)
next
  case (Audio a)
  show ?thesis
  proof (cases "apply_tags T a")
    case (Inl e)
    with Audio show ?thesis by (simp add: save_file_def)
  next
    case (Inr a')
    show ?thesis
    proof (cases "easy_save_error a'")
      case (Some m)
      with Audio Inr show ?thesis by (simp add: save_file_def)
    next
      case None
      let ?d1 = "d(path := Audio a')"
      have keep: "tags a' key = tags a key"
        using apply_tags_frame [OF assms Inr] .
      have d1: "tag_on ?d1 q key = tag_on d q key \<and> is_audio ?d1 q = is_audio d q"
        using Audio keep by (auto simp: tag_on_def is_audio_def)
      show ?thesis
      proof (cases A)
        case None
        with Audio Inr \<open>easy_save_error a' = None\<close> d1 show ?thesis
          by (simp add: save_file_def)
      next
        case (Some data)
        with Audio Inr \<open>easy_save_error a' = None\<close>
        have "snd (save_file d path T A M) = snd (save_album_art_to_file ?d1 path data M)"
          by (simp add: save_file_def)
        with d1 show ?thesis
          by (simp add: save_album_art_tag_on save_album_art_is_audio)
      qed
    qed
  qed
qed

lemma save_loop_frame:
  assumes "\<forall>tv\<in>set T. TAG_MAP (fst tv) \<noteq> Some key"
  shows "tag_on (disk_now (save_loop stop T A M n i ps r)) q key = tag_on (disk_now r) q key
       \<and> is_audio (disk_now (save_loop stop T A M n i ps r)) q = is_audio (disk_now r) q"
proof (induction ps arbitrary: i r)
  case Nil
  show ?case by simp
next
  case (Cons p ps)
  show ?case
  proof (cases "stop i")
    case True
    then show ?thesis by simp
  next
    case False
    obtain res d' where sf: "save_file (disk_now r) p T A M = (res, d')"
      by (cases "save_file (disk_now r) p T A M")
    have one: "tag_on d' q key = tag_on (disk_now r) q key
             \<and> is_audio d' q = is_audio (disk_now r) q"
      using save_file_frame [OF assms, of "disk_now r" p A M q] sf by simp
    show ?thesis
      using False sf one
      by (cases res) (simp_all add: Cons.IH)
  qed
qed

text \<open>
  Claim C5. In batch mode (two or more files selected) a field whose checkbox is not checked
  is neither written nor deleted, in any file and whatever its text field shows: its
  native key has the value it had, and every file stays what it was to the library.
\<close>

theorem batch_mode_leaves_unchecked_fields:
  assumes batch: "2 \<le> length (selected_paths ed)"
      and unticked: "\<not> checked ed t"
      and field: "TAG_MAP t = Some key"
      and run: "save_metadata stop ed d = Some r"
  shows "tag_on (disk_now r) p key = tag_on d p key
       \<and> is_audio (disk_now r) p = is_audio d p"
proof -
  let ?T = "tags_to_save_of ed"
  have T: "?T = map (\<lambda>tag_display. (tag_display, field_text ed tag_display))
                  (filter (checked ed) (map fst TAG_MAP_items))"
    using batch by (simp add: tags_to_save_of_def)
  have none: "\<forall>tv\<in>set ?T. TAG_MAP (fst tv) \<noteq> Some key"
  proof
    fix tv assume "tv \<in> set ?T"
    then have c: "checked ed (fst tv)" unfolding T by auto
    show "TAG_MAP (fst tv) \<noteq> Some key"
    proof
      assume "TAG_MAP (fst tv) = Some key"
      then have "fst tv = t" using field by (rule TAG_MAP_inj)
      with c unticked show False by simp
    qed
  qed
  from run obtain A M where r: "r = process_and_save stop d (selected_paths ed) ?T A M"
    by (auto simp: save_metadata_def Let_def split: if_splits)
  show ?thesis
    unfolding r process_and_save_def
    using save_loop_frame [OF none] by simp
qed

text \<open>
  Two files with the genre Rock, only the title checked and the field of the genre blank:
  both keep their genre, and the title is applied.
\<close>

theorem batch_mode_leaves_unchecked_fields_witness:
  "2 \<le> length (selected_paths batch_editor)
   \<and> \<not> checked batch_editor ''Genre''
   \<and> field_text batch_editor ''Genre'' = []
   \<and> tag_on (disk_now (the (save_metadata (\<lambda>_. False) batch_editor two_tagged)))
        ''/m/a.flac'' ''genre'' = Some [''Rock'']
   \<and> tag_on (disk_now (the (save_metadata (\<lambda>_. False) batch_editor two_tagged)))
        ''/m/b.flac'' ''genre'' = Some [''Rock'']
   \<and> tag_on (disk_now (the (save_metadata (\<lambda>_. False) batch_editor two_tagged)))
        ''/m/b.flac'' ''title'' = Some [''New'']"
proof -
  have b: "2 \<le> length (selected_paths batch_editor)" by (simp add: batch_editor_def)
  have u: "\<not> checked batch_editor ''Genre''" by (simp add: batch_editor_def)
  have blank: "field_text batch_editor ''Genre'' = []" by (simp add: batch_editor_def)
  have k: "TAG_MAP ''Genre'' = Some ''genre''" by (simp add: TAG_MAP_def TAG_MAP_items_def)
  have run: "save_metadata (\<lambda>_. False) batch_editor two_tagged
               = Some (the (save_metadata (\<lambda>_. False) batch_editor two_tagged))"
    by (simp add: save_metadata_def batch_editor_def)
  have o1: "tag_on two_tagged ''/m/a.flac'' ''genre'' = Some [''Rock'']" by code_simp
  have o2: "tag_on two_tagged ''/m/b.flac'' ''genre'' = Some [''Rock'']" by code_simp
  have new: "tag_on (disk_now (the (save_metadata (\<lambda>_. False) batch_editor two_tagged)))
        ''/m/b.flac'' ''title'' = Some [''New'']" by code_simp
  show ?thesis
    using batch_mode_leaves_unchecked_fields [OF b u k run, of "''/m/a.flac''"]
      batch_mode_leaves_unchecked_fields [OF b u k run, of "''/m/b.flac''"]
      b u blank o1 o2 new
    by simp
qed

section \<open>A failure after the tags are saved\<close>

lemma save_file_other:
  "q \<noteq> path \<Longrightarrow> snd (save_file d path T A M) q = d q"
  by (auto simp: save_file_def Let_def save_album_art_other
      split: entry.splits sum.splits option.splits)

lemma save_loop_other:
  "q \<notin> set ps \<Longrightarrow> disk_now (save_loop stop T A M n i ps r) q = disk_now r q"
proof (induction ps arbitrary: i r)
  case Nil
  show ?case by simp
next
  case (Cons p ps)
  have q: "q \<noteq> p" and rest: "q \<notin> set ps" using Cons.prems by auto
  obtain res d' where sf: "save_file (disk_now r) p T A M = (res, d')"
    by (cases "save_file (disk_now r) p T A M")
  have one: "d' q = disk_now r q"
    using save_file_other [OF q, of "disk_now r" T A M] sf by simp
  show ?case
    using sf one by (cases res) (simp_all add: Cons.IH [OF rest])
qed

text \<open>
  Claim C10. When, for a file of a batch save that is not stopped, the tags are saved and
  the write of the album art that follows raises, the file gets its entry in the error
  list and is not counted, and yet the tags as changed are on disk: right after the file,
  and at the end of the batch if the file does not come again.
\<close>

theorem art_failure_keeps_saved_tags:
  assumes nostop: "\<forall>i<length (pre @ path # post). \<not> stop i"
      and before: "disk_now (process_and_save stop d pre T (Some data) M) path = Audio a"
      and tagged: "apply_tags T a = Inr a'"
      and persisted: "easy_save_error a' = None"
      and art_raises:
        "save_album_art_to_file
           ((disk_now (process_and_save stop d pre T (Some data) M))(path := Audio a'))
           path data M = (Inl e, d'')"
  shows "errors (finished (pre @ path # post)
                  (process_and_save stop d (pre @ path # post) T (Some data) M)) =
           errs (process_and_save stop d pre T (Some data) M)
             @ [''Error saving '' @ basename path @ '': '' @ str_exn e]
             @ errs (process_and_save (\<lambda>_. False) d'' post T (Some data) M)
       \<and> saved_count (finished (pre @ path # post)
                  (process_and_save stop d (pre @ path # post) T (Some data) M)) =
           saved (process_and_save stop d pre T (Some data) M)
             + saved (process_and_save (\<lambda>_. False) d'' post T (Some data) M)
       \<and> d'' path = Audio a'
       \<and> (path \<notin> set post \<longrightarrow>
            disk_now (process_and_save stop d (pre @ path # post) T (Some data) M) path = Audio a')"
proof -
  let ?d0 = "disk_now (process_and_save stop d pre T (Some data) M)"
  have fail: "save_file ?d0 path T (Some data) M = (Inl e, d'')"
    using before tagged persisted art_raises by (simp add: save_file_def)
  note step = save_loop_failure [OF nostop fail]
  have kept: "d'' = ?d0(path := Audio a')"
    using save_album_art_cases [OF art_raises] by auto
  then have here: "d'' path = Audio a'" by simp
  have last: "path \<notin> set post \<longrightarrow>
      disk_now (process_and_save stop d (pre @ path # post) T (Some data) M) path = Audio a'"
  proof
    assume "path \<notin> set post"
    then have "disk_now (process_and_save (\<lambda>_. False) d'' post T (Some data) M) path = d'' path"
      unfolding process_and_save_def by (simp add: save_loop_other)
    with step here show
      "disk_now (process_and_save stop d (pre @ path # post) T (Some data) M) path = Audio a'"
      by simp
  qed
  show ?thesis
    using step here last by simp
qed

text \<open>
  Two files and a picture to embed, the first on a device with no space left for the
  second write: it is reported as an error, only the other file is counted, and its new
  title is on disk.
\<close>

theorem art_failure_keeps_saved_tags_witness:
  "errors (finished two_paths
      (process_and_save (\<lambda>_. False) first_fails_art two_paths [(''Title'', ''x'')]
         (Some ''IMG'') (Some ''image/png'')))
     = [''Error saving a.mp3: Failed to save album art: No space left on device'']
   \<and> saved_count (finished two_paths
      (process_and_save (\<lambda>_. False) first_fails_art two_paths [(''Title'', ''x'')]
         (Some ''IMG'') (Some ''image/png''))) = 1
   \<and> tag_on first_fails_art ''/m/a.mp3'' ''title'' = None
   \<and> tag_on (disk_now
      (process_and_save (\<lambda>_. False) first_fails_art two_paths [(''Title'', ''x'')]
         (Some ''IMG'') (Some ''image/png''))) ''/m/a.mp3'' ''title'' = Some [''x'']"
proof -
  let ?T = "[(''Title'', ''x'')]"
  let ?a' = "full_device\<lparr>has_tags := True, tags := (tags full_device)(''title'' \<mapsto> [''x''])\<rparr>"
  let ?d0 = "disk_now (process_and_save (\<lambda>_. False) first_fails_art [] ?T (Some ''IMG'')
               (Some ''image/png''))"
  let ?d1 = "?d0(''/m/a.mp3'' := Audio ?a')"
  let ?whole = "process_and_save (\<lambda>_. False) first_fails_art two_paths ?T (Some ''IMG'')
               (Some ''image/png'')"
  have paths: "two_paths = [] @ ''/m/a.mp3'' # [''/m/b.mp3'']"
    by (simp add: two_paths_def)
  have h1: "\<forall>i<length ([] @ ''/m/a.mp3'' # [''/m/b.mp3'']). \<not> (\<lambda>_. False) i" by simp
  have h2: "?d0 ''/m/a.mp3'' = Audio full_device"
    by (simp add: process_and_save_def first_fails_art_def)
  have h3: "apply_tags ?T full_device = Inr ?a'"
    by (simp add: TAG_MAP_def TAG_MAP_items_def set_tag_def full_device_def plain_def)
  have h4: "easy_save_error ?a' = None"
    by (simp add: full_device_def plain_def)
  have h5: "save_album_art_to_file ?d1 ''/m/a.mp3'' ''IMG'' (Some ''image/png'')
      = (Inl (RuntimeError (''Failed to save album art: '' @ ''No space left on device'')), ?d1)"
    by (simp add: save_album_art_to_file_def branch_error_def save_error_def Let_def
        full_device_def plain_def splitext_ext_def basename_def lower_def lower_char_def)
  note keep = art_failure_keeps_saved_tags [OF h1 h2 h3 h4 h5]
  have pre: "errs (process_and_save (\<lambda>_. False) first_fails_art [] ?T (Some ''IMG'')
               (Some ''image/png'')) = []"
    by (simp add: process_and_save_def)
  have pre_n: "saved (process_and_save (\<lambda>_. False) first_fails_art [] ?T (Some ''IMG'')
               (Some ''image/png'')) = 0"
    by (simp add: process_and_save_def)
  have post: "errs (process_and_save (\<lambda>_. False) ?d1 [''/m/b.mp3''] ?T (Some ''IMG'')
               (Some ''image/png'')) = []"
    by code_simp
  have post_n: "saved (process_and_save (\<lambda>_. False) ?d1 [''/m/b.mp3''] ?T (Some ''IMG'')
               (Some ''image/png'')) = 1"
    by code_simp
  have name: "basename ''/m/a.mp3'' = ''a.mp3''" by (simp add: basename_def)
  have e: "errors (finished two_paths ?whole)
      = [''Error saving a.mp3: Failed to save album art: No space left on device'']"
    using keep [THEN conjunct1] by (simp add: paths pre post name)
  have c: "saved_count (finished two_paths ?whole) = 1"
    using keep [THEN conjunct2, THEN conjunct1] by (simp add: paths pre_n post_n)
  have t: "disk_now ?whole ''/m/a.mp3'' = Audio ?a'"
    using keep [THEN conjunct2, THEN conjunct2, THEN conjunct2] by (simp add: paths)
  have old: "tag_on first_fails_art ''/m/a.mp3'' ''title'' = None" by code_simp
  show ?thesis
    using e c old by (simp add: tag_on_def t)
qed

section \<open>Properties of applying a release\<close>

lemma split_on_head:
  "split_on sep s = w # ws \<Longrightarrow> w = takeWhile (\<lambda>c. c \<noteq> sep) s"
proof (induction s arbitrary: w ws)
  case Nil
  then show ?case by simp
next
  case (Cons c s)
  show ?case
  proof (cases "c = sep")
    case True
    with Cons.prems show ?thesis by simp
  next
    case False
    show ?thesis
    proof (cases "split_on sep s")
      case Nil
      with False Cons.prems show ?thesis by (cases s) (auto split: if_splits list.splits)
    next
      case (Cons w' ws')
      from Cons.IH [OF this] have "w' = takeWhile (\<lambda>c. c \<noteq> sep) s" .
      with False Cons Cons.prems show ?thesis by simp
    qed
  qed
qed

lemma split_on_not_Nil: "split_on sep s \<noteq> []"
  by (induction s) (auto split: list.splits)

lemma release_year_takeWhile:
  "release_year release_data =
     takeWhile (\<lambda>c. c \<noteq> CHR ''-'') (case r_date release_data of None \<Rightarrow> [] | Some s \<Rightarrow> s)"
proof -
  let ?s = "case r_date release_data of None \<Rightarrow> [] | Some s \<Rightarrow> s"
  obtain w ws where sp: "split_on CHR ''-'' ?s = w # ws"
    using split_on_not_Nil [of "CHR ''-''" ?s] by (cases "split_on CHR ''-'' ?s") auto
  from split_on_head [OF sp] sp show ?thesis
    by (simp add: release_year_def)
qed

lemma apply_track_result:
  assumes "apply_track tracks i album_artist album_title date total_tracks a = Inr a'"
  shows "i < length tracks \<and>
     (\<exists>num title. t_number (tracks ! i) = Some num
        \<and> track_title_of (tracks ! i) = Inr title
        \<and> tags a' ''title'' = Some [title]
        \<and> tags a' ''artist'' = Some [case t_artist_credit_phrase (tracks ! i) of
                                       None \<Rightarrow> album_artist | Some phrase \<Rightarrow> phrase]
        \<and> tags a' ''albumartist'' = Some [album_artist]
        \<and> tags a' ''album'' = Some [album_title]
        \<and> tags a' ''date'' = Some [date]
        \<and> tags a' ''tracknumber'' = Some [num @ ''/'' @ str_of_nat total_tracks])"
proof -
  from assms have i: "i < length tracks"
    by (auto simp: apply_track_def bind_exn_def track_at_def split: if_splits)
  let ?t = "tracks ! i"
  from assms i obtain num where num: "t_number ?t = Some num"
    by (auto simp: apply_track_def bind_exn_def track_at_def track_number_of_def
        split: option.splits)
  from assms i num obtain title where title: "track_title_of ?t = Inr title"
    by (auto simp: apply_track_def bind_exn_def track_at_def track_number_of_def
        split: sum.splits)
  let ?artist = "case t_artist_credit_phrase ?t of None \<Rightarrow> album_artist | Some phrase \<Rightarrow> phrase"
  from assms i num title obtain a1 a2 a3 a4 a5 where
      s1: "set_tag ''title'' title a = Inr a1"
    and s2: "set_tag ''artist'' ?artist a1 = Inr a2"
    and s3: "set_tag ''albumartist'' album_artist a2 = Inr a3"
    and s4: "set_tag ''album'' album_title a3 = Inr a4"
    and s5: "set_tag ''date'' date a4 = Inr a5"
    and s6: "set_tag ''tracknumber'' (num @ ''/'' @ str_of_nat total_tracks) a5 = Inr a'"
    by (auto simp: apply_track_def bind_exn_def track_at_def track_number_of_def
        split: sum.splits)
  have "tags a' = (tags a)(''title'' \<mapsto> [title], ''artist'' \<mapsto> [?artist],
      ''albumartist'' \<mapsto> [album_artist], ''album'' \<mapsto> [album_title], ''date'' \<mapsto> [date],
      ''tracknumber'' \<mapsto> [num @ ''/'' @ str_of_nat total_tracks])"
    using set_tag_tags [OF s1] set_tag_tags [OF s2] set_tag_tags [OF s3]
      set_tag_tags [OF s4] set_tag_tags [OF s5] set_tag_tags [OF s6]
    by simp
  then have "tags a' ''title'' = Some [title]"
      "tags a' ''artist'' = Some [?artist]"
      "tags a' ''albumartist'' = Some [album_artist]"
      "tags a' ''album'' = Some [album_title]"
      "tags a' ''date'' = Some [date]"
      "tags a' ''tracknumber'' = Some [num @ ''/'' @ str_of_nat total_tracks]"
    by simp_all
  with i num title show ?thesis by blast
qed

lemma apply_file_other:
  "q \<noteq> path \<Longrightarrow> snd (apply_file d path tracks i aa at date tot art M) q = d q"
  by (auto simp: apply_file_def Let_def split: entry.splits sum.splits option.splits prod.splits
      dest: save_album_art_cases)

lemma apply_file_local:
  assumes "d path = d2 path"
  shows "fst (apply_file d path tracks i aa at date tot art M)
           = fst (apply_file d2 path tracks i aa at date tot art M)
       \<and> snd (apply_file d path tracks i aa at date tot art M) path
           = snd (apply_file d2 path tracks i aa at date tot art M) path"
proof -
  have art_local: "\<And>x data. fst (save_album_art_to_file (d(path := x)) path data M)
       = fst (save_album_art_to_file (d2(path := x)) path data M)
     \<and> snd (save_album_art_to_file (d(path := x)) path data M) path
       = snd (save_album_art_to_file (d2(path := x)) path data M) path"
    by (auto simp: save_album_art_to_file_def Let_def split: entry.splits option.splits)
  have d2_eq: "d2 path = d path" using assms by simp
  show ?thesis
  proof (cases "d path")
    case (Unreadable m)
    then show ?thesis by (simp add: apply_file_def d2_eq)
  next
    case Unrecognised
    then show ?thesis by (simp add: apply_file_def d2_eq)
  next
    case (Audio a)
    show ?thesis
    proof (cases "apply_track tracks i aa at date tot a")
      case (Inl e)
      with Audio show ?thesis by (simp add: apply_file_def d2_eq)
    next
      case (Inr a')
      show ?thesis
      proof (cases "easy_save_error a'")
        case (Some m)
        with Audio Inr show ?thesis by (simp add: apply_file_def d2_eq)
      next
        case None
        show ?thesis
        proof (cases "art = None \<or> art = Some []")
          case True
          with Audio Inr None show ?thesis by (auto simp: apply_file_def d2_eq)
        next
          case False
          then obtain data where art: "art = Some data" and ne: "data \<noteq> []" by auto
          obtain r1 e1 where A1:
            "save_album_art_to_file (d(path := Audio a')) path data M = (r1, e1)"
            by (cases "save_album_art_to_file (d(path := Audio a')) path data M")
          obtain r2 e2 where A2:
            "save_album_art_to_file (d2(path := Audio a')) path data M = (r2, e2)"
            by (cases "save_album_art_to_file (d2(path := Audio a')) path data M")
          from art_local [of "Audio a'" data] A1 A2
          have same: "r1 = r2" "e1 path = e2 path" by simp_all
          have L: "apply_file d path tracks i aa at date tot art M
                     = (case r1 of Inl e \<Rightarrow> (Failed e, e1) | Inr _ \<Rightarrow> (Applied, e1))"
            using Audio Inr None art ne A1 by (simp add: apply_file_def split: sum.splits)
          have R: "apply_file d2 path tracks i aa at date tot art M
                     = (case r2 of Inl e \<Rightarrow> (Failed e, e2) | Inr _ \<Rightarrow> (Applied, e2))"
            using Audio Inr None art ne A2 by (simp add: apply_file_def d2_eq split: sum.splits)
          show ?thesis
            unfolding L R using same by (cases r2) simp_all
        qed
      qed
    qed
  qed
qed

lemma apply_loop_other:
  "q \<notin> set ps \<Longrightarrow>
   disk_now (apply_loop stop tracks aa at date tot art M n i ps r) q = disk_now r q"
proof (induction ps arbitrary: i r)
  case Nil
  show ?case by simp
next
  case (Cons p ps)
  have q: "q \<noteq> p" and rest: "q \<notin> set ps" using Cons.prems by auto
  obtain res d' where sf: "apply_file (disk_now r) p tracks i aa at date tot art M = (res, d')"
    by (cases "apply_file (disk_now r) p tracks i aa at date tot art M")
  have one: "d' q = disk_now r q"
    using apply_file_other [OF q, of "disk_now r" tracks i aa at date tot art M] sf by simp
  show ?case
    using sf one by (cases res) (simp_all add: Cons.IH [OF rest])
qed

lemma apply_loop_nth:
  assumes "distinct ps"
      and "\<forall>j<length ps. \<not> stop (i + j)"
      and "j < length ps"
  shows "disk_now (apply_loop stop tracks aa at date tot art M n i ps r) (ps ! j)
           = snd (apply_file (disk_now r) (ps ! j) tracks (i + j) aa at date tot art M) (ps ! j)"
  using assms
proof (induction ps arbitrary: i j r)
  case Nil
  then show ?case by simp
next
  case (Cons p ps)
  have ns: "\<not> stop i" using Cons.prems(2) by force
  have rest_ns: "\<forall>j<length ps. \<not> stop (Suc i + j)" using Cons.prems(2) by force
  have dis: "distinct ps" and p: "p \<notin> set ps" using Cons.prems(1) by auto
  obtain res d' where sf: "apply_file (disk_now r) p tracks i aa at date tot art M = (res, d')"
    by (cases "apply_file (disk_now r) p tracks i aa at date tot art M")
  obtain r' where r': "apply_loop stop tracks aa at date tot art M n i (p # ps) r
                         = apply_loop stop tracks aa at date tot art M n (Suc i) ps r'"
      and dr': "disk_now r' = d'"
    using ns sf by (cases res) simp_all
  show ?case
  proof (cases j)
    case 0
    have "disk_now (apply_loop stop tracks aa at date tot art M n (Suc i) ps r') p = d' p"
      using apply_loop_other [OF p] dr' by simp
    with 0 r' sf show ?thesis by simp
  next
    case (Suc k)
    then have k: "k < length ps" using Cons.prems(3) by simp
    have neq: "ps ! k \<noteq> p" using p k by (metis nth_mem)
    have same: "disk_now r' (ps ! k) = disk_now r (ps ! k)"
      using apply_file_other [OF neq, of "disk_now r" tracks i aa at date tot art M] sf dr'
      by simp
    have "disk_now (apply_loop stop tracks aa at date tot art M n (Suc i) ps r') (ps ! k)
            = snd (apply_file (disk_now r') (ps ! k) tracks (Suc i + k) aa at date tot art M) (ps ! k)"
      by (rule Cons.IH [OF dis rest_ns k])
    also have "\<dots> = snd (apply_file (disk_now r) (ps ! k) tracks (Suc i + k) aa at date tot art M) (ps ! k)"
      using apply_file_local [of "disk_now r'" "ps ! k" "disk_now r", OF same] by simp
    finally show ?thesis using Suc r' by simp
  qed
qed

lemma apply_file_applied:
  assumes "fst (apply_file d path tracks i aa at date tot art M) = Applied"
  shows "\<exists>a a'. d path = Audio a \<and> apply_track tracks i aa at date tot a = Inr a'
           \<and> tag_on (snd (apply_file d path tracks i aa at date tot art M)) path = tags a'"
proof -
  from assms obtain a where a: "d path = Audio a"
    by (auto simp: apply_file_def split: entry.splits)
  from assms a obtain a' where a': "apply_track tracks i aa at date tot a = Inr a'"
    by (auto simp: apply_file_def split: sum.splits)
  from assms a a' have ok: "easy_save_error a' = None"
    by (auto simp: apply_file_def split: option.splits)
  let ?d1 = "d(path := Audio a')"
  have d1: "tag_on ?d1 path = tags a'" by (auto simp: tag_on_def)
  have "tag_on (snd (apply_file d path tracks i aa at date tot art M)) path = tags a'"
  proof (cases "art = None \<or> art = Some []")
    case True
    with a a' ok d1 show ?thesis by (auto simp: apply_file_def)
  next
    case False
    then obtain data where art: "art = Some data" and ne: "data \<noteq> []" by auto
    have "snd (apply_file d path tracks i aa at date tot art M)
            = snd (save_album_art_to_file ?d1 path data M)"
      using a a' ok art ne by (simp add: apply_file_def split: prod.splits sum.splits)
    then show ?thesis using d1 by (auto simp: save_album_art_tag_on)
  qed
  with a a' show ?thesis by blast
qed

lemma read_release_values:
  assumes "read_release scale release_data art_data art_mime = Inr v"
  shows "\<exists>m. release_tracks release_data = Inr (m, v_tracks v)
           \<and> v_total_tracks v = total_tracks_of m (v_tracks v)
           \<and> v_date v = release_year release_data"
  using assms
  by (auto simp: read_release_def bind_exn_def split: sum.splits option.splits)

lemma release_file_tags:
  assumes dis: "distinct file_paths"
      and nostop: "\<forall>j<length file_paths. \<not> stop j"
      and i: "i < length file_paths"
      and applied: "file_outcome scale d release_data art_data art_mime (file_paths ! i) i
                      = Some Applied"
  shows "\<exists>m tracks num title.
           release_tracks release_data = Inr (m, tracks)
         \<and> i < length tracks
         \<and> t_number (tracks ! i) = Some num
         \<and> track_title_of (tracks ! i) = Inr title
         \<and> tag_on (disk_now (fst (process_and_save_musicbrainz stop scale d file_paths
                      release_data art_data art_mime))) (file_paths ! i) ''title''
             = Some [title]
         \<and> tag_on (disk_now (fst (process_and_save_musicbrainz stop scale d file_paths
                      release_data art_data art_mime))) (file_paths ! i) ''date''
             = Some [release_year release_data]
         \<and> tag_on (disk_now (fst (process_and_save_musicbrainz stop scale d file_paths
                      release_data art_data art_mime))) (file_paths ! i) ''tracknumber''
             = Some [num @ ''/'' @ str_of_nat (total_tracks_of m tracks)]"
proof -
  let ?p = "file_paths ! i"
  from applied obtain v where rd: "read_release scale release_data art_data art_mime = Inr v"
      and ap: "fst (apply_file d ?p (v_tracks v) i (v_album_artist v) (v_album_title v)
                 (v_date v) (v_total_tracks v) (v_art v) art_mime) = Applied"
    by (auto simp: file_outcome_def split: sum.splits)
  from read_release_values [OF rd] obtain m where
      m: "release_tracks release_data = Inr (m, v_tracks v)"
    and tot: "v_total_tracks v = total_tracks_of m (v_tracks v)"
    and date: "v_date v = release_year release_data" by blast
  let ?r0 = "\<lparr>disk_now = d, saved = 0, errs = [], emitted = [(0, length file_paths)]\<rparr>"
  let ?run = "apply_loop stop (v_tracks v) (v_album_artist v) (v_album_title v) (v_date v)
     (v_total_tracks v) (v_art v) art_mime (length file_paths) 0 file_paths ?r0"
  have run: "fst (process_and_save_musicbrainz stop scale d file_paths release_data
                    art_data art_mime) = ?run"
    using rd by (simp add: process_and_save_musicbrainz_def)
  have ns: "\<forall>j<length file_paths. \<not> stop (0 + j)" using nostop by simp
  have at: "disk_now ?run ?p
      = snd (apply_file d ?p (v_tracks v) i (v_album_artist v) (v_album_title v)
               (v_date v) (v_total_tracks v) (v_art v) art_mime) ?p"
    using apply_loop_nth [OF dis ns i, of "v_tracks v" "v_album_artist v" "v_album_title v"
        "v_date v" "v_total_tracks v" "v_art v" art_mime "length file_paths" ?r0]
    by simp
  from apply_file_applied [OF ap] obtain a a' where
      tr: "apply_track (v_tracks v) i (v_album_artist v) (v_album_title v) (v_date v)
             (v_total_tracks v) a = Inr a'"
    and tg: "tag_on (snd (apply_file d ?p (v_tracks v) i (v_album_artist v) (v_album_title v)
               (v_date v) (v_total_tracks v) (v_art v) art_mime)) ?p = tags a'"
    by blast
  have final: "tag_on (disk_now ?run) ?p = tags a'"
    using at tg by (simp add: tag_on_def fun_eq_iff)
  from apply_track_result [OF tr] obtain num title where
      "i < length (v_tracks v)" "t_number (v_tracks v ! i) = Some num"
      "track_title_of (v_tracks v ! i) = Inr title"
      "tags a' ''title'' = Some [title]" "tags a' ''date'' = Some [v_date v]"
      "tags a' ''tracknumber'' = Some [num @ ''/'' @ str_of_nat (v_total_tracks v)]"
    by blast
  then show ?thesis
    using m tot date final unfolding run by auto
qed

text \<open>
  Claim C8. For every file to which a track of the release is applied, in a run that is
  not stopped over distinct files, the value stored under \<^verbatim>\<open>tracknumber\<close> is the number of
  the track, a slash, and the total in decimal, where the total is the track count that the
  release declares, if it declares one, and the length of its track list otherwise.
\<close>

theorem track_number_is_number_slash_total:
  assumes "distinct file_paths"
      and "\<forall>j<length file_paths. \<not> stop j"
      and "i < length file_paths"
      and "file_outcome scale d release_data art_data art_mime (file_paths ! i) i = Some Applied"
  shows "\<exists>m tracks num.
           release_tracks release_data = Inr (m, tracks)
         \<and> i < length tracks
         \<and> t_number (tracks ! i) = Some num
         \<and> tag_on (disk_now (fst (process_and_save_musicbrainz stop scale d file_paths
                      release_data art_data art_mime))) (file_paths ! i) ''tracknumber''
             = Some [num @ ''/'' @ str_of_nat (case track_count m of
                                                  Some c \<Rightarrow> c
                                                | None \<Rightarrow> length tracks)]"
  using release_file_tags [OF assms] unfolding total_tracks_of_def by blast

text \<open>The track numbered 3 of a release that declares twelve tracks is stored as 3/12.\<close>

theorem track_number_is_number_slash_total_witness:
  "file_outcome (\<lambda>b f. b) five_good three_of_twelve None None (three_paths ! 2) 2 = Some Applied
   \<and> t_number (track_of ''3'' ''Three'') = Some ''3''
   \<and> tag_on (disk_now (fst (process_and_save_musicbrainz (\<lambda>_. False) (\<lambda>b f. b) five_good
                three_paths three_of_twelve None None))) ''/m/3.mp3'' ''tracknumber''
       = Some [''3/12'']"
proof -
  have h1: "distinct three_paths" by (simp add: three_paths_def)
  have h2: "\<forall>j<length three_paths. \<not> (\<lambda>_. False) j" by simp
  have h3: "2 < length three_paths" by (simp add: three_paths_def)
  have h4: "file_outcome (\<lambda>b f. b) five_good three_of_twelve None None (three_paths ! 2) 2
              = Some Applied"
    by code_simp
  have third: "three_paths ! 2 = ''/m/3.mp3''" by (simp add: three_paths_def)
  have rel: "release_tracks three_of_twelve
      = Inr (\<lparr>track_list = Some [track_of ''1'' ''One'', track_of ''2'' ''Two'',
                                 track_of ''3'' ''Three''], track_count = Some 12\<rparr>,
             [track_of ''1'' ''One'', track_of ''2'' ''Two'', track_of ''3'' ''Three''])"
    by (simp add: release_tracks_def three_of_twelve_def)
  have num: "t_number (track_of ''3'' ''Three'') = Some ''3''" by (simp add: track_of_def)
  have twelve: "str_of_nat 12 = ''12''" by code_simp
  from track_number_is_number_slash_total [OF h1 h2 h3 h4]
  obtain m tracks n where
      a: "release_tracks three_of_twelve = Inr (m, tracks)"
    and b: "t_number (tracks ! 2) = Some n"
    and c: "tag_on (disk_now (fst (process_and_save_musicbrainz (\<lambda>_. False) (\<lambda>b f. b) five_good
                three_paths three_of_twelve None None))) (three_paths ! 2) ''tracknumber''
        = Some [n @ ''/'' @ str_of_nat (case track_count m of Some c \<Rightarrow> c | None \<Rightarrow> length tracks)]"
    by blast
  from a rel have m: "track_count m = Some 12"
      and t: "tracks = [track_of ''1'' ''One'', track_of ''2'' ''Two'', track_of ''3'' ''Three'']"
    by auto
  from b t num have n: "n = ''3''" by simp
  show ?thesis
    using h4 num c by (simp add: m n twelve third)
qed

lemma apply_track_view:
  assumes "apply_track tracks i album_artist album_title date total_tracks a = Inr a'"
  shows "easy_view a' = easy_view a"
proof -
  from assms have i: "i < length tracks"
    by (auto simp: apply_track_def bind_exn_def track_at_def split: if_splits)
  let ?t = "tracks ! i"
  from assms i obtain num where num: "t_number ?t = Some num"
    by (auto simp: apply_track_def bind_exn_def track_at_def track_number_of_def
        split: option.splits)
  from assms i num obtain title where title: "track_title_of ?t = Inr title"
    by (auto simp: apply_track_def bind_exn_def track_at_def track_number_of_def
        split: sum.splits)
  let ?artist = "case t_artist_credit_phrase ?t of None \<Rightarrow> album_artist | Some phrase \<Rightarrow> phrase"
  from assms i num title obtain a1 a2 a3 a4 a5 where
      s1: "set_tag ''title'' title a = Inr a1"
    and s2: "set_tag ''artist'' ?artist a1 = Inr a2"
    and s3: "set_tag ''albumartist'' album_artist a2 = Inr a3"
    and s4: "set_tag ''album'' album_title a3 = Inr a4"
    and s5: "set_tag ''date'' date a4 = Inr a5"
    and s6: "set_tag ''tracknumber'' (num @ ''/'' @ str_of_nat total_tracks) a5 = Inr a'"
    by (auto simp: apply_track_def bind_exn_def track_at_def track_number_of_def
        split: sum.splits)
  show ?thesis
    using set_tag_view [OF s1] set_tag_view [OF s2] set_tag_view [OF s3]
      set_tag_view [OF s4] set_tag_view [OF s5] set_tag_view [OF s6]
    by simp
qed

lemma apply_file_applied_reads:
  assumes "fst (apply_file d path tracks i aa at date tot art M) = Applied"
  shows "\<exists>a a'. d path = Audio a \<and> apply_track tracks i aa at date tot a = Inr a'
           \<and> read_tag (snd (apply_file d path tracks i aa at date tot art M)) path = easy_get a'"
proof -
  from assms obtain a where a: "d path = Audio a"
    by (auto simp: apply_file_def split: entry.splits)
  from assms a obtain a' where a': "apply_track tracks i aa at date tot a = Inr a'"
    by (auto simp: apply_file_def split: sum.splits)
  from assms a a' have ok: "easy_save_error a' = None"
    by (auto simp: apply_file_def split: option.splits)
  let ?d1 = "d(path := Audio a')"
  have d1: "read_tag ?d1 path = easy_get a'" by (auto simp: read_tag_def)
  have "read_tag (snd (apply_file d path tracks i aa at date tot art M)) path = easy_get a'"
  proof (cases "art = None \<or> art = Some []")
    case True
    with a a' ok d1 show ?thesis by (auto simp: apply_file_def)
  next
    case False
    then obtain data where art: "art = Some data" and ne: "data \<noteq> []" by auto
    have "snd (apply_file d path tracks i aa at date tot art M)
            = snd (save_album_art_to_file ?d1 path data M)"
      using a a' ok art ne by (simp add: apply_file_def split: prod.splits sum.splits)
    then show ?thesis using d1 by (auto simp: save_album_art_read_tag)
  qed
  with a a' show ?thesis by blast
qed

text \<open>What the date of an applied file reads as: the reading of the year that was saved.\<close>

lemma release_file_reads_date:
  assumes dis: "distinct file_paths"
      and nostop: "\<forall>j<length file_paths. \<not> stop j"
      and i: "i < length file_paths"
      and applied: "file_outcome scale d release_data art_data art_mime (file_paths ! i) i
                      = Some Applied"
  shows "\<exists>a. d (file_paths ! i) = Audio a
         \<and> read_tag (disk_now (fst (process_and_save_musicbrainz stop scale d file_paths
                      release_data art_data art_mime))) (file_paths ! i) ''date''
             = easy_view a ''date'' [release_year release_data]"
proof -
  let ?p = "file_paths ! i"
  from applied obtain v where rd: "read_release scale release_data art_data art_mime = Inr v"
      and ap: "fst (apply_file d ?p (v_tracks v) i (v_album_artist v) (v_album_title v)
                 (v_date v) (v_total_tracks v) (v_art v) art_mime) = Applied"
    by (auto simp: file_outcome_def split: sum.splits)
  from read_release_values [OF rd] have date: "v_date v = release_year release_data" by blast
  let ?r0 = "\<lparr>disk_now = d, saved = 0, errs = [], emitted = [(0, length file_paths)]\<rparr>"
  let ?run = "apply_loop stop (v_tracks v) (v_album_artist v) (v_album_title v) (v_date v)
     (v_total_tracks v) (v_art v) art_mime (length file_paths) 0 file_paths ?r0"
  have run: "fst (process_and_save_musicbrainz stop scale d file_paths release_data
                    art_data art_mime) = ?run"
    using rd by (simp add: process_and_save_musicbrainz_def)
  have ns: "\<forall>j<length file_paths. \<not> stop (0 + j)" using nostop by simp
  have at: "disk_now ?run ?p
      = snd (apply_file d ?p (v_tracks v) i (v_album_artist v) (v_album_title v)
               (v_date v) (v_total_tracks v) (v_art v) art_mime) ?p"
    using apply_loop_nth [OF dis ns i, of "v_tracks v" "v_album_artist v" "v_album_title v"
        "v_date v" "v_total_tracks v" "v_art v" art_mime "length file_paths" ?r0]
    by simp
  from apply_file_applied_reads [OF ap] obtain a a' where
      a: "d ?p = Audio a"
    and tr: "apply_track (v_tracks v) i (v_album_artist v) (v_album_title v) (v_date v)
             (v_total_tracks v) a = Inr a'"
    and rg: "read_tag (snd (apply_file d ?p (v_tracks v) i (v_album_artist v) (v_album_title v)
               (v_date v) (v_total_tracks v) (v_art v) art_mime)) ?p = easy_get a'"
    by blast
  have final: "read_tag (disk_now ?run) ?p = easy_get a'"
    using at rg by (simp add: read_tag_def fun_eq_iff)
  from apply_track_result [OF tr] have saved: "tags a' ''date'' = Some [v_date v]" by blast
  have view: "easy_view a' = easy_view a" using apply_track_view [OF tr] .
  have "read_tag (disk_now ?run) ?p ''date'' = easy_view a ''date'' [release_year release_data]"
    using final saved view date by (simp add: easy_get_def)
  with a show ?thesis unfolding run by blast
qed

lemma musicbrainz_date_year:
  assumes "musicbrainz_date s"
  shows "takeWhile (\<lambda>c. c \<noteq> CHR ''-'') s = take 4 s"
proof -
  from assms obtain y rest where sp: "split_on CHR ''-'' s = y # rest" and y: "length y = 4"
    by (auto simp: musicbrainz_date_def digits_def split: list.splits)
  from split_on_head [OF sp] have h: "takeWhile (\<lambda>c. c \<noteq> CHR ''-'') s = y" by simp
  have "s = takeWhile (\<lambda>c. c \<noteq> CHR ''-'') s @ dropWhile (\<lambda>c. c \<noteq> CHR ''-'') s" by simp
  then have "take 4 s = take 4 (y @ dropWhile (\<lambda>c. c \<noteq> CHR ''-'') s)" using h by simp
  also have "\<dots> = y" using y by simp
  finally show ?thesis using h by simp
qed

text \<open>
  Claim C9. For every file to which a track of the release is applied, in a run that is
  not stopped over distinct files, and for a release whose date is as the remote database
  serves it, the year saved under \<^verbatim>\<open>date\<close> is the first four characters of the date of the
  release, the empty text if the release has no date; and the key reads afterwards as the
  container's interface reads that year.
\<close>

theorem year_is_first_four_characters:
  assumes "distinct file_paths"
      and "\<forall>j<length file_paths. \<not> stop j"
      and "i < length file_paths"
      and "file_outcome scale d release_data art_data art_mime (file_paths ! i) i = Some Applied"
      and served: "date_as_served release_data"
  shows "tag_on (disk_now (fst (process_and_save_musicbrainz stop scale d file_paths
                   release_data art_data art_mime))) (file_paths ! i) ''date''
           = Some [take 4 (case r_date release_data of None \<Rightarrow> [] | Some s \<Rightarrow> s)]
       \<and> (\<exists>a. d (file_paths ! i) = Audio a
            \<and> read_tag (disk_now (fst (process_and_save_musicbrainz stop scale d file_paths
                   release_data art_data art_mime))) (file_paths ! i) ''date''
               = easy_view a ''date''
                   [take 4 (case r_date release_data of None \<Rightarrow> [] | Some s \<Rightarrow> s)])"
proof -
  have year: "release_year release_data
                = take 4 (case r_date release_data of None \<Rightarrow> [] | Some s \<Rightarrow> s)"
  proof (cases "r_date release_data")
    case None
    then show ?thesis by (simp add: release_year_takeWhile)
  next
    case (Some s)
    with served have "musicbrainz_date s" by (simp add: date_as_served_def)
    from musicbrainz_date_year [OF this] Some show ?thesis
      by (simp add: release_year_takeWhile)
  qed
  have saved: "tag_on (disk_now (fst (process_and_save_musicbrainz stop scale d file_paths
                   release_data art_data art_mime))) (file_paths ! i) ''date''
                 = Some [release_year release_data]"
    using release_file_tags [OF assms(1-4)] by auto
  from release_file_reads_date [OF assms(1-4)] saved show ?thesis
    unfolding year by simp
qed

text \<open>
  The date 2021-05-01 is saved as 2021 and reads so; the empty year of a release without a
  date is saved on an \<^verbatim>\<open>.mp3\<close>, which then has no date to read.
\<close>

theorem year_is_first_four_characters_witness:
  "date_as_served one_track_dated
   \<and> r_date one_track_dated = Some ''2021-05-01''
   \<and> file_outcome (\<lambda>b f. b) five_good one_track_dated None None ([''/m/1.mp3''] ! 0) 0
       = Some Applied
   \<and> read_tag (disk_now (fst (process_and_save_musicbrainz (\<lambda>_. False) (\<lambda>b f. b) five_good
                [''/m/1.mp3''] one_track_dated None None))) ''/m/1.mp3'' ''date''
       = Some [''2021'']
   \<and> date_as_served undated
   \<and> file_outcome (\<lambda>b f. b) one_mp3 undated None None ([''/m/a.mp3''] ! 0) 0 = Some Applied
   \<and> tag_on (disk_now (fst (process_and_save_musicbrainz (\<lambda>_. False) (\<lambda>b f. b) one_mp3
                [''/m/a.mp3''] undated None None))) ''/m/a.mp3'' ''date''
       = Some [[]]
   \<and> read_tag (disk_now (fst (process_and_save_musicbrainz (\<lambda>_. False) (\<lambda>b f. b) one_mp3
                [''/m/a.mp3''] undated None None))) ''/m/a.mp3'' ''date''
       = None"
proof -
  have h1: "distinct [''/m/1.mp3'']" and g1: "distinct [''/m/a.mp3'']" by simp_all
  have h2: "\<forall>j<length [''/m/1.mp3'']. \<not> (\<lambda>_. False) j"
    and g2: "\<forall>j<length [''/m/a.mp3'']. \<not> (\<lambda>_. False) j" by simp_all
  have h3: "0 < length [''/m/1.mp3'']" and g3: "0 < length [''/m/a.mp3'']" by simp_all
  have h4: "file_outcome (\<lambda>b f. b) five_good one_track_dated None None ([''/m/1.mp3''] ! 0) 0
              = Some Applied"
    by code_simp
  have g4: "file_outcome (\<lambda>b f. b) one_mp3 undated None None ([''/m/a.mp3''] ! 0) 0
              = Some Applied"
    by code_simp
  have h5: "date_as_served one_track_dated" by code_simp
  have g5: "date_as_served undated" by code_simp
  have date: "r_date one_track_dated = Some ''2021-05-01''"
    by (simp add: one_track_dated_def)
  have nodate: "r_date undated = None"
    by (simp add: undated_def)
  have file1: "five_good ''/m/1.mp3'' = Audio plain"
    by (simp add: five_good_def five_third_bad_def)
  have file2: "one_mp3 ''/m/a.mp3'' = Audio (plain\<lparr>easy_view := id3_view\<rparr>)"
    by (simp add: one_mp3_def)
  have v1: "easy_view plain ''date'' [''2021''] = Some [''2021'']"
    by (simp add: plain_def)
  have v2: "easy_view (plain\<lparr>easy_view := id3_view\<rparr>) ''date'' [[]] = None"
    by (simp add: id3_view_def digits_def)
  have r1: "read_tag (disk_now (fst (process_and_save_musicbrainz (\<lambda>_. False) (\<lambda>b f. b)
                five_good [''/m/1.mp3''] one_track_dated None None))) ''/m/1.mp3'' ''date''
              = Some [''2021'']"
    using year_is_first_four_characters [OF h1 h2 h3 h4 h5, THEN conjunct2] file1 v1
    by (simp add: date)
  have t2: "tag_on (disk_now (fst (process_and_save_musicbrainz (\<lambda>_. False) (\<lambda>b f. b) one_mp3
                [''/m/a.mp3''] undated None None))) ''/m/a.mp3'' ''date'' = Some [[]]"
    using year_is_first_four_characters [OF g1 g2 g3 g4 g5, THEN conjunct1]
    by (simp add: nodate)
  have r2: "read_tag (disk_now (fst (process_and_save_musicbrainz (\<lambda>_. False) (\<lambda>b f. b) one_mp3
                [''/m/a.mp3''] undated None None))) ''/m/a.mp3'' ''date'' = None"
    using year_is_first_four_characters [OF g1 g2 g3 g4 g5, THEN conjunct2] file2 v2
    by (simp add: nodate)
  show ?thesis using h5 date h4 r1 g5 g4 t2 r2 by simp
qed

text \<open>
  Claim C2. When the number of selected files differs from the number of tracks of the
  release, applying the release ends with the warning of a track mismatch that carries
  both numbers, the worker is not run, and the disk is the one it was.
\<close>

theorem mismatch_writes_nothing:
  assumes "release_tracks release_data = Inr (m, tracks)"
      and "length (selected_paths ed) \<noteq> length tracks"
  shows "apply_musicbrainz_data stop scale ed d release_data art_data art_mime
           = (TrackMismatch (length (selected_paths ed)) (length tracks), d)"
  using assms by (simp add: apply_musicbrainz_data_def)

text \<open>Two files against a release of one track: the mismatch 2 to 1, and no title written.\<close>

theorem mismatch_writes_nothing_witness:
  "length (selected_paths b_then_a) \<noteq> length [track_of ''1'' ''One'']
   \<and> fst (apply_musicbrainz_data (\<lambda>_. False) (\<lambda>b f. b) b_then_a a_and_b compact_date None None)
       = TrackMismatch 2 1
   \<and> tag_on (snd (apply_musicbrainz_data (\<lambda>_. False) (\<lambda>b f. b) b_then_a a_and_b compact_date
                None None)) ''/m/a.mp3'' ''title'' = None
   \<and> tag_on (snd (apply_musicbrainz_data (\<lambda>_. False) (\<lambda>b f. b) b_then_a a_and_b compact_date
                None None)) ''/m/b.mp3'' ''title'' = None"
proof -
  have h1: "release_tracks compact_date
      = Inr (\<lparr>track_list = Some [track_of ''1'' ''One''], track_count = None\<rparr>,
             [track_of ''1'' ''One''])"
    by (simp add: release_tracks_def compact_date_def)
  have h2: "length (selected_paths b_then_a) \<noteq> length [track_of ''1'' ''One'']"
    by (simp add: b_then_a_def)
  have n: "length (selected_paths b_then_a) = 2" by (simp add: b_then_a_def)
  have ta: "tag_on a_and_b ''/m/a.mp3'' ''title'' = None" by code_simp
  have tb: "tag_on a_and_b ''/m/b.mp3'' ''title'' = None" by code_simp
  show ?thesis
    using mismatch_writes_nothing [OF h1 h2, of "\<lambda>_. False" "\<lambda>b f. b" a_and_b None None]
      h2 ta tb
    by (simp add: n)
qed

lemma sorted_keys_of_permutation:
  fixes f :: "'a \<Rightarrow> 'k::linorder"
  assumes "mset xs = mset ys"
  shows "map f (sort_key f xs) = map f (sort_key f ys)"
proof -
  have "sort (map f ys) = map f (sort_key f xs)"
  proof (rule properties_for_sort)
    show "mset (map f (sort_key f xs)) = mset (map f ys)"
      using assms by simp
    show "sorted (map f (sort_key f xs))" by simp
  qed
  moreover have "sort (map f ys) = map f (sort_key f ys)"
    by (rule properties_for_sort) simp_all
  ultimately show ?thesis by simp
qed

text \<open>
  Claim C3. Applying a release sorts the selected files by base name before it pairs them
  with the tracks: the list given to the worker is sorted by base name and holds the
  selected files, and the title of the track of index \<open>i\<close> is written to the file of index
  \<open>i\<close> of that list. The order of the selection does not count: the base names of the sorted
  list are the same for every order of the selection, and where no two selected files
  share a base name the whole result is the same.
\<close>

theorem release_pairs_tracks_by_basename:
  assumes tracks: "release_tracks release_data = Inr (m, tracks)"
      and same: "length (selected_paths ed) = length tracks"
      and dis: "distinct (selected_paths ed)"
      and nostop: "\<forall>j<length (selected_paths ed). \<not> stop j"
      and i: "i < length (selected_paths ed)"
      and applied: "file_outcome scale d release_data art_data art_mime
                      (sort_key basename (selected_paths ed) ! i) i = Some Applied"
  shows "sorted (map basename (sort_key basename (selected_paths ed)))
       \<and> mset (sort_key basename (selected_paths ed)) = mset (selected_paths ed)
       \<and> (\<exists>title. track_title_of (tracks ! i) = Inr title
            \<and> tag_on (snd (apply_musicbrainz_data stop scale ed d release_data art_data art_mime))
                 (sort_key basename (selected_paths ed) ! i) ''title'' = Some [title])
       \<and> (\<forall>sel. mset sel = mset (selected_paths ed) \<longrightarrow>
             map basename (sort_key basename sel)
               = map basename (sort_key basename (selected_paths ed)))
       \<and> (\<forall>sel. mset sel = mset (selected_paths ed) \<and> inj_on basename (set (selected_paths ed))
             \<longrightarrow> apply_musicbrainz_data stop scale (ed\<lparr>selected_paths := sel\<rparr>) d release_data
                   art_data art_mime
                 = apply_musicbrainz_data stop scale ed d release_data art_data art_mime)"
proof -
  let ?sel = "selected_paths ed"
  let ?ps = "sort_key basename ?sel"
  have d': "distinct ?ps" using dis by simp
  have ns: "\<forall>j<length ?ps. \<not> stop j" using nostop by simp
  have i': "i < length ?ps" using i by simp
  have result: "snd (apply_musicbrainz_data stop scale ed d release_data art_data art_mime)
      = disk_now (fst (process_and_save_musicbrainz stop scale d ?ps release_data art_data art_mime))"
    using tracks same by (simp add: apply_musicbrainz_data_def Let_def split: prod.splits)
  from release_file_tags [OF d' ns i' applied] tracks
  have pair: "\<exists>title. track_title_of (tracks ! i) = Inr title
      \<and> tag_on (snd (apply_musicbrainz_data stop scale ed d release_data art_data art_mime))
           (?ps ! i) ''title'' = Some [title]"
    unfolding result by auto
  have keys: "\<forall>sel. mset sel = mset ?sel \<longrightarrow>
      map basename (sort_key basename sel) = map basename ?ps"
    by (auto intro: sorted_keys_of_permutation)
  have order: "\<forall>sel. mset sel = mset ?sel \<and> inj_on basename (set ?sel)
      \<longrightarrow> apply_musicbrainz_data stop scale (ed\<lparr>selected_paths := sel\<rparr>) d release_data
            art_data art_mime
          = apply_musicbrainz_data stop scale ed d release_data art_data art_mime"
  proof (intro allI impI)
    fix sel assume a: "mset sel = mset ?sel \<and> inj_on basename (set ?sel)"
    then have "set sel = set ?sel" by (metis mset_eq_setD)
    with a have inj: "inj_on basename (set sel)" by simp
    have "sort_key basename sel = ?ps"
      using a inj by (intro sort_key_inj_key_eq) simp_all
    moreover have "length sel = length ?sel" using a by (metis mset_eq_length)
    ultimately show "apply_musicbrainz_data stop scale (ed\<lparr>selected_paths := sel\<rparr>) d
        release_data art_data art_mime
      = apply_musicbrainz_data stop scale ed d release_data art_data art_mime"
      using tracks same by (simp add: apply_musicbrainz_data_def)
  qed
  have s1: "sorted (map basename ?ps)" by simp
  have s2: "mset ?ps = mset ?sel" by simp
  from s1 s2 pair keys order show ?thesis by (intro conjI)
qed

text \<open>The files b.mp3, a.mp3 and the tracks 1 and 2: the title of track 1 is written to a.mp3.\<close>

theorem release_pairs_tracks_by_basename_witness:
  "sort_key basename (selected_paths b_then_a) = [''/m/a.mp3'', ''/m/b.mp3'']
   \<and> file_outcome (\<lambda>b f. b) a_and_b two_tracks None None ''/m/a.mp3'' 0 = Some Applied
   \<and> track_title_of (track_of ''1'' ''One'') = Inr ''One''
   \<and> tag_on (snd (apply_musicbrainz_data (\<lambda>_. False) (\<lambda>b f. b) b_then_a a_and_b two_tracks
                None None)) ''/m/a.mp3'' ''title'' = Some [''One'']"
proof -
  let ?tr = "[track_of ''1'' ''One'', track_of ''2'' ''Two'']"
  have srt: "sort_key basename (selected_paths b_then_a) = [''/m/a.mp3'', ''/m/b.mp3'']"
    by (simp add: b_then_a_def basename_def)
  have h1: "release_tracks two_tracks = Inr (\<lparr>track_list = Some ?tr, track_count = Some 2\<rparr>, ?tr)"
    by (simp add: release_tracks_def two_tracks_def)
  have h2: "length (selected_paths b_then_a) = length ?tr" by (simp add: b_then_a_def)
  have h3: "distinct (selected_paths b_then_a)" by (simp add: b_then_a_def)
  have h4: "\<forall>j<length (selected_paths b_then_a). \<not> (\<lambda>_. False) j" by simp
  have h5: "0 < length (selected_paths b_then_a)" by (simp add: b_then_a_def)
  have out: "file_outcome (\<lambda>b f. b) a_and_b two_tracks None None ''/m/a.mp3'' 0 = Some Applied"
    by code_simp
  then have h6: "file_outcome (\<lambda>b f. b) a_and_b two_tracks None None
                   (sort_key basename (selected_paths b_then_a) ! 0) 0 = Some Applied"
    by (simp add: srt)
  have title: "track_title_of (track_of ''1'' ''One'') = Inr ''One''"
    by (simp add: track_title_of_def track_of_def)
  from release_pairs_tracks_by_basename [OF h1 h2 h3 h4 h5 h6, THEN conjunct2, THEN conjunct2,
      THEN conjunct1]
  have "tag_on (snd (apply_musicbrainz_data (\<lambda>_. False) (\<lambda>b f. b) b_then_a a_and_b two_tracks
                None None)) ''/m/a.mp3'' ''title'' = Some [''One'']"
    using title by (simp add: srt)
  with srt out title show ?thesis by simp
qed

section \<open>Writing a picture and reading it back\<close>

text \<open>
  Claim C4. Writing a picture and reading it back gives the picture on a \<^verbatim>\<open>.flac\<close> and on
  an \<^verbatim>\<open>.m4a\<close>, but not on the two other containers, and a delete is read as absent on a
  \<^verbatim>\<open>.flac\<close> alone: a picture written to an \<^verbatim>\<open>.mp3\<close> or to an \<^verbatim>\<open>.ogg\<close> is reported
  as written and then not found by the reader, which ends in an error, as it does after a
  delete on an \<^verbatim>\<open>.m4a\<close>.
\<close>

theorem written_picture_not_read_back:
  "fst (save_album_art_to_file four_containers ''/m/a.mp3'' ''IMG'' (Some ''image/png'')) = Inr ()
   \<and> load_album_art
        (snd (save_album_art_to_file four_containers ''/m/a.mp3'' ''IMG'' (Some ''image/png'')))
        ''/m/a.mp3'' = ErrorLoadingArt
   \<and> fst (save_album_art_to_file four_containers ''/m/a.ogg'' ''IMG'' (Some ''image/png'')) = Inr ()
   \<and> load_album_art
        (snd (save_album_art_to_file four_containers ''/m/a.ogg'' ''IMG'' (Some ''image/png'')))
        ''/m/a.ogg'' = ErrorLoadingArt
   \<and> fst (save_album_art_to_file four_containers ''/m/a.m4a'' [] None) = Inr ()
   \<and> load_album_art
        (snd (save_album_art_to_file four_containers ''/m/a.m4a'' [] None))
        ''/m/a.m4a'' = ErrorLoadingArt
   \<and> load_album_art
        (snd (save_album_art_to_file four_containers ''/m/a.flac'' ''IMG'' (Some ''image/png'')))
        ''/m/a.flac'' = ArtShown ''IMG''
   \<and> load_album_art
        (snd (save_album_art_to_file four_containers ''/m/a.m4a'' ''IMG'' (Some ''image/png'')))
        ''/m/a.m4a'' = ArtShown ''IMG''
   \<and> load_album_art
        (snd (save_album_art_to_file four_containers ''/m/a.flac'' [] None))
        ''/m/a.flac'' = NoAlbumArt"
proof -
  have a: "fst (save_album_art_to_file four_containers ''/m/a.mp3'' ''IMG'' (Some ''image/png''))
             = Inr ()"
    by code_simp
  have b: "load_album_art
        (snd (save_album_art_to_file four_containers ''/m/a.mp3'' ''IMG'' (Some ''image/png'')))
        ''/m/a.mp3'' = ErrorLoadingArt"
    by code_simp
  have c: "fst (save_album_art_to_file four_containers ''/m/a.ogg'' ''IMG'' (Some ''image/png''))
             = Inr ()"
    by code_simp
  have d: "load_album_art
        (snd (save_album_art_to_file four_containers ''/m/a.ogg'' ''IMG'' (Some ''image/png'')))
        ''/m/a.ogg'' = ErrorLoadingArt"
    by code_simp
  have e: "fst (save_album_art_to_file four_containers ''/m/a.m4a'' [] None) = Inr ()"
    by code_simp
  have f: "load_album_art
        (snd (save_album_art_to_file four_containers ''/m/a.m4a'' [] None))
        ''/m/a.m4a'' = ErrorLoadingArt"
    by code_simp
  have g: "load_album_art
        (snd (save_album_art_to_file four_containers ''/m/a.flac'' ''IMG'' (Some ''image/png'')))
        ''/m/a.flac'' = ArtShown ''IMG''"
    by code_simp
  have h: "load_album_art
        (snd (save_album_art_to_file four_containers ''/m/a.m4a'' ''IMG'' (Some ''image/png'')))
        ''/m/a.m4a'' = ArtShown ''IMG''"
    by code_simp
  have i: "load_album_art
        (snd (save_album_art_to_file four_containers ''/m/a.flac'' [] None))
        ''/m/a.flac'' = NoAlbumArt"
    by code_simp
  show ?thesis using a b c d e f g h i by simp
qed

end
